theory Spec2Isabelle
  imports Complex_Main "HOL-Library.Word"
begin

section \<open>ACER (baselines/acer/acer_simple.py): tensors and helpers\<close>

text \<open>
  Tensors of the TensorFlow graph are modelled by their values: a rank-1 tensor is a list
  of numbers, a rank-2 tensor a list of rows. The float32 entries are modelled as real
  numbers; rounding is not modelled. A batch of shape \<open>[n_envs * n_steps]\<close> is laid
  out environment-major, as \<open>learn\<close> produces it by reshaping the runner's
  \<open>[n_env, n_steps]\<close> arrays: entry \<open>(e, i)\<close> sits at index \<open>e * n_steps + i\<close>.
\<close>

type_synonym tensor1 = "real list"
type_synonym tensor2 = "real list list"

datatype error =
  ShapeError | IndexError | TypeError | AttributeError | AssertionError | ValueError | AxisError

definition has_shape2 :: "'a list list \<Rightarrow> nat \<Rightarrow> nat \<Rightarrow> bool" where
  "has_shape2 t n m = (length t = n \<and> list_all (\<lambda>row. length row = m) t)"

definition nonneg2 :: "tensor2 \<Rightarrow> bool" where
  "nonneg2 t = list_all (list_all (\<lambda>x. 0 \<le> x)) t"

text \<open>\<open>eps = 1e-6\<close> of \<open>setup_model\<close>.\<close>

definition eps :: real where
  "eps = 1 / 1000000"

text \<open>
  Modelled from the spec: \<open>get_by_index\<close> of baselines.a2c.utils is not among the
  sources. The spec says it selects the per-taken-action scalar of each row.
\<close>

definition get_by_index :: "tensor2 \<Rightarrow> nat list \<Rightarrow> tensor1" where
  "get_by_index input_tensor idx = map2 (\<lambda>row a. row ! a) input_tensor idx"

definition reduce_sum_rows :: "tensor2 \<Rightarrow> tensor1" where
  "reduce_sum_rows t = map sum_list t"

definition reduce_mean :: "tensor1 \<Rightarrow> real" where
  "reduce_mean t = sum_list t / real (length t)"

text \<open>\<open>tf.stop_gradient\<close> is the identity on the value that flows forward.\<close>

definition stop_gradient :: "'a \<Rightarrow> 'a" where
  "stop_gradient x = x"

section \<open>Loss and gradient assembly (\<open>ACER.setup_model\<close>)\<close>

text \<open>\<open>rho = distribution_f / (self.mu_ph + eps)\<close>\<close>

definition rho_denominator :: "tensor2 \<Rightarrow> tensor2" where
  "rho_denominator mu = map (map (\<lambda>m. m + eps)) mu"

definition rho :: "tensor2 \<Rightarrow> tensor2 \<Rightarrow> tensor2" where
  "rho distribution_f mu = map2 (map2 (\<lambda>p d. p / d)) distribution_f (rho_denominator mu)"

text \<open>
  Truncated importance sampling:
  \<open>adv = qret - value\<close>, \<open>log_f = tf.log(f_i + eps)\<close>,
  \<open>gain_f = log_f * tf.stop_gradient(adv * tf.minimum(self.correction_term, rho_i))\<close>,
  \<open>loss_f = -tf.reduce_mean(gain_f)\<close>.
  The Retrace targets \<open>qret\<close> and the values \<open>value\<close> (stripped of the bootstrap
  step) are inputs here, both of shape \<open>[n_envs * n_steps]\<close>.
\<close>

definition adv :: "tensor1 \<Rightarrow> tensor1 \<Rightarrow> tensor1" where
  "adv qret val = map2 (\<lambda>q v. q - v) qret val"

definition log_f :: "tensor1 \<Rightarrow> tensor1" where
  "log_f f_i = map (\<lambda>p. ln (p + eps)) f_i"

definition truncated_rho :: "real \<Rightarrow> tensor1 \<Rightarrow> tensor1" where
  "truncated_rho correction_term rho_i = map (\<lambda>r. min correction_term r) rho_i"

definition gain_f_weight :: "real \<Rightarrow> tensor1 \<Rightarrow> tensor1 \<Rightarrow> tensor1 \<Rightarrow> tensor1" where
  "gain_f_weight correction_term qret val rho_i =
     stop_gradient (map2 (\<lambda>a r. a * r) (adv qret val) (truncated_rho correction_term rho_i))"

definition gain_f :: "tensor1 \<Rightarrow> tensor1 \<Rightarrow> tensor1" where
  "gain_f lf w = map2 (\<lambda>l x. l * x) lf w"

definition loss_f :: "real \<Rightarrow> tensor2 \<Rightarrow> tensor2 \<Rightarrow> nat list \<Rightarrow> tensor1 \<Rightarrow> tensor1 \<Rightarrow> real" where
  "loss_f correction_term distribution_f mu action qret val =
     (let f_i = get_by_index distribution_f action;
          rho_i = get_by_index (rho distribution_f mu) action
      in - reduce_mean (gain_f (log_f f_i) (gain_f_weight correction_term qret val rho_i)))"

text \<open>
  Bias correction:
  \<open>tf.nn.relu(1.0 - (self.correction_term / (rho + eps)))\<close>.
\<close>

definition bc_denominator :: "tensor2 \<Rightarrow> tensor2" where
  "bc_denominator r = map (map (\<lambda>x. x + eps)) r"

definition bc_truncation :: "real \<Rightarrow> tensor2 \<Rightarrow> tensor2" where
  "bc_truncation correction_term r =
     map (map (\<lambda>d. max 0 (1 - correction_term / d))) (bc_denominator r)"

text \<open>
  Trust region:
  \<open>kl_grad = - f_polyak / (distribution_f + eps)\<close>,
  \<open>k_dot_g = tf.reduce_sum(kl_grad * grad, axis=-1)\<close>,
  \<open>adj = tf.maximum(0.0, (tf.reduce_sum(kl_grad * grad, axis=-1) - self.delta) /
     (tf.reduce_sum(tf.square(kl_grad), axis=-1) + eps))\<close>,
  \<open>grad = grad - tf.reshape(adj, [self.n_envs * self.n_steps, 1]) * kl_grad\<close>.
  The unadjusted \<open>grad\<close> is what \<open>tf.gradients\<close> returns for the policy loss with
  respect to \<open>distribution_f\<close>; it is an input here.
\<close>

definition kl_denominator :: "tensor2 \<Rightarrow> tensor2" where
  "kl_denominator distribution_f = map (map (\<lambda>p. p + eps)) distribution_f"

definition kl_grad :: "tensor2 \<Rightarrow> tensor2 \<Rightarrow> tensor2" where
  "kl_grad f_polyak distribution_f =
     map2 (map2 (\<lambda>q d. - q / d)) f_polyak (kl_denominator distribution_f)"

definition k_dot_g :: "tensor2 \<Rightarrow> tensor2 \<Rightarrow> tensor1" where
  "k_dot_g kl grad = reduce_sum_rows (map2 (map2 (\<lambda>k g. k * g)) kl grad)"

definition adj_denominator :: "tensor2 \<Rightarrow> tensor1" where
  "adj_denominator kl = map (\<lambda>s. s + eps) (reduce_sum_rows (map (map (\<lambda>k. k * k)) kl))"

definition adj :: "real \<Rightarrow> tensor2 \<Rightarrow> tensor2 \<Rightarrow> tensor1" where
  "adj delta kl grad =
     map2 (\<lambda>n d. max 0 ((n - delta) / d)) (k_dot_g kl grad) (adj_denominator kl)"

definition adjusted_grad :: "real \<Rightarrow> tensor2 \<Rightarrow> tensor2 \<Rightarrow> tensor2" where
  "adjusted_grad delta kl grad =
     map2 (\<lambda>(g_row, k_row) a. map2 (\<lambda>g k. g - a * k) g_row k_row)
       (zip grad kl) (adj delta kl grad)"


section \<open>Retrace targets (\<open>q_retrace\<close>)\<close>

text \<open>
  Modelled from the spec: \<open>batch_to_seq\<close> and \<open>seq_to_batch\<close> of
  baselines.a2c.utils are not among the sources. With \<open>flat=True\<close>, as
  \<open>q_retrace\<close> calls them, the first splits a batch of shape
  \<open>[n_envs * n_steps]\<close> into \<open>n_steps\<close> tensors of shape \<open>[n_envs]\<close>, one per
  step, and fails on a batch of any other size; the second flattens such a sequence back
  "in original step-major/env-major ordering matching the input batch layout".
\<close>

definition batch_to_seq :: "tensor1 \<Rightarrow> nat \<Rightarrow> nat \<Rightarrow> error + tensor1 list" where
  "batch_to_seq tensor_batch n_envs n_steps =
     (if length tensor_batch \<noteq> n_envs * n_steps then Inl ShapeError
      else Inr (map (\<lambda>i. map (\<lambda>e. tensor_batch ! (e * n_steps + i)) [0..<n_envs]) [0..<n_steps]))"

definition seq_to_batch :: "tensor1 list \<Rightarrow> error + tensor1" where
  "seq_to_batch tensor_sequence =
     (case tensor_sequence of
        [] \<Rightarrow> Inl IndexError
      | v # _ \<Rightarrow>
          if list_all (\<lambda>u. length u = length v) tensor_sequence
          then Inr (concat (map (\<lambda>e. map (\<lambda>u. u ! e) tensor_sequence) [0..<length v]))
          else Inl ShapeError)"

text \<open>
  \<open>check_shape\<close> (also of baselines.a2c.utils) asserts the shape of each tensor of a
  list; here every expected shape is \<open>[n_envs]\<close>.
\<close>

definition check_shape :: "tensor1 list \<Rightarrow> nat \<Rightarrow> bool" where
  "check_shape ts n_envs = list_all (\<lambda>t. length t = n_envs) ts"

text \<open>
  The loop \<open>for i in range(n_steps - 1, -1, -1)\<close>: the counter is \<open>i + 1\<close>, the
  number of iterations still to run, so the equation for \<open>Suc i\<close> is the body at
  index \<open>i\<close> (an index beyond a sequence is an \<open>IndexError\<close>):
  \<open>qret = reward_seq[i] + gamma * qret * (1.0 - done_seq[i])\<close>,
  \<open>qrets.append(qret)\<close>,
  \<open>qret = (rho_bar[i] * (qret - q_is[i])) + value_sequence[i]\<close>.
\<close>

primrec q_retrace_loop ::
  "real \<Rightarrow> nat \<Rightarrow> tensor1 list \<Rightarrow> tensor1 list \<Rightarrow> tensor1 list \<Rightarrow> tensor1 list \<Rightarrow> tensor1 list
    \<Rightarrow> nat \<Rightarrow> tensor1 \<Rightarrow> tensor1 list \<Rightarrow> error + tensor1 list" where
  "q_retrace_loop gamma n_envs rho_bar reward_seq done_seq q_is value_sequence 0 qret qrets =
     Inr qrets"
| "q_retrace_loop gamma n_envs rho_bar reward_seq done_seq q_is value_sequence (Suc i) qret qrets =
     (if \<not> list_all (\<lambda>s. i < length s) [done_seq, reward_seq, rho_bar, q_is, value_sequence]
      then Inl IndexError
      else if \<not> check_shape [qret, done_seq ! i, reward_seq ! i, rho_bar ! i, q_is ! i,
                          value_sequence ! i] n_envs
      then Inl AssertionError
      else
        let qret1 = map2 (\<lambda>r x. r + x) (reward_seq ! i)
                      (map2 (\<lambda>x d. x * d) (map (\<lambda>x. gamma * x) qret)
                         (map (\<lambda>d. 1 - d) (done_seq ! i)));
            qrets1 = qrets @ [qret1];
            qret2 = map2 (\<lambda>x v. x + v)
                      (map2 (\<lambda>r x. r * x) (rho_bar ! i) (map2 (\<lambda>x q. x - q) qret1 (q_is ! i)))
                      (value_sequence ! i)
        in q_retrace_loop gamma n_envs rho_bar reward_seq done_seq q_is value_sequence i
             qret2 qrets1)"

definition q_retrace ::
  "tensor1 \<Rightarrow> tensor1 \<Rightarrow> tensor1 \<Rightarrow> tensor1 \<Rightarrow> tensor1 \<Rightarrow> nat \<Rightarrow> nat \<Rightarrow> real \<Rightarrow> error + tensor1" where
  "q_retrace rewards dones q_i vals rho_i n_envs n_steps gamma =
     (case batch_to_seq (map (\<lambda>r. min 1 r) rho_i) n_envs n_steps of
        Inl err \<Rightarrow> Inl err
      | Inr rho_bar \<Rightarrow>
     (case batch_to_seq rewards n_envs n_steps of
        Inl err \<Rightarrow> Inl err
      | Inr reward_seq \<Rightarrow>
     (case batch_to_seq dones n_envs n_steps of
        Inl err \<Rightarrow> Inl err
      | Inr done_seq \<Rightarrow>
     (case batch_to_seq q_i n_envs n_steps of
        Inl err \<Rightarrow> Inl err
      | Inr q_is \<Rightarrow>
     (case batch_to_seq vals n_envs (n_steps + 1) of
        Inl err \<Rightarrow> Inl err
      | Inr value_sequence \<Rightarrow>
          (let final_value = last value_sequence;
               qret = final_value
           in case q_retrace_loop gamma n_envs rho_bar reward_seq done_seq q_is value_sequence
                     n_steps qret [] of
                Inl err \<Rightarrow> Inl err
              | Inr qrets \<Rightarrow> seq_to_batch (rev qrets)))))))"

text \<open>
  The recursion as the specification words it, for one environment whose per-step
  rewards, done flags, selected Q-values, values and importance ratios are given as
  functions of the step (a \<open>trajectory\<close>): \<open>carried_qret i\<close> is the \<open>qret\<close> carried into step
  \<open>i - 1\<close>; it starts as \<open>value[n_steps]\<close>, and at step \<open>i\<close> the target is
  \<open>reward[i] + gamma * qret * (1 - done[i])\<close> and the carried value becomes
  \<open>min(1, rho[i]) * (target[i] - q_i[i]) + value[i]\<close>.
\<close>

record trajectory =
  t_reward :: "nat \<Rightarrow> real"
  t_done :: "nat \<Rightarrow> real"
  t_q :: "nat \<Rightarrow> real"
  t_value :: "nat \<Rightarrow> real"
  t_rho :: "nat \<Rightarrow> real"

function carried_qret :: "real \<Rightarrow> nat \<Rightarrow> trajectory \<Rightarrow> nat \<Rightarrow> real" where
  "carried_qret gamma n_steps tr i =
     (if n_steps \<le> i then t_value tr n_steps
      else min 1 (t_rho tr i)
             * ((t_reward tr i + gamma * carried_qret gamma n_steps tr (Suc i) * (1 - t_done tr i))
                - t_q tr i)
           + t_value tr i)"
  by pat_completeness auto
termination
  by (relation "measure (\<lambda>(gamma, n_steps, tr, i). n_steps - i)") auto

declare carried_qret.simps [simp del]

definition target_qret :: "real \<Rightarrow> nat \<Rightarrow> trajectory \<Rightarrow> nat \<Rightarrow> real" where
  "target_qret gamma n_steps tr i =
     t_reward tr i + gamma * carried_qret gamma n_steps tr (Suc i) * (1 - t_done tr i)"

text \<open>Entry \<open>(e, k)\<close> of a flat batch whose rows have \<open>width\<close> steps.\<close>

definition env_slice :: "tensor1 \<Rightarrow> nat \<Rightarrow> nat \<Rightarrow> nat \<Rightarrow> real" where
  "env_slice t width e k = t ! (e * width + k)"

text \<open>Environment \<open>e\<close>'s trajectory within the flat batches.\<close>

definition env_trajectory ::
  "tensor1 \<Rightarrow> tensor1 \<Rightarrow> tensor1 \<Rightarrow> tensor1 \<Rightarrow> tensor1 \<Rightarrow> nat \<Rightarrow> nat \<Rightarrow> trajectory" where
  "env_trajectory rewards dones q_i vals rho_i n_steps e =
     \<lparr>t_reward = env_slice rewards n_steps e, t_done = env_slice dones n_steps e,
      t_q = env_slice q_i n_steps e, t_value = env_slice vals (n_steps + 1) e,
      t_rho = env_slice rho_i n_steps e\<rparr>"

definition retrace_target ::
  "tensor1 \<Rightarrow> tensor1 \<Rightarrow> tensor1 \<Rightarrow> tensor1 \<Rightarrow> tensor1 \<Rightarrow> nat \<Rightarrow> real \<Rightarrow> nat \<Rightarrow> nat \<Rightarrow> real" where
  "retrace_target rewards dones q_i vals rho_i n_steps gamma e i =
     target_qret gamma n_steps (env_trajectory rewards dones q_i vals rho_i n_steps e) i"

definition retrace_carried ::
  "tensor1 \<Rightarrow> tensor1 \<Rightarrow> tensor1 \<Rightarrow> tensor1 \<Rightarrow> tensor1 \<Rightarrow> nat \<Rightarrow> real \<Rightarrow> nat \<Rightarrow> nat \<Rightarrow> real" where
  "retrace_carried rewards dones q_i vals rho_i n_steps gamma e i =
     carried_qret gamma n_steps (env_trajectory rewards dones q_i vals rho_i n_steps e) i"

section \<open>Rollout runner (\<open>_Runner\<close>)\<close>

text \<open>
  Observations are \<open>uint8\<close> arrays of shape \<open>[n_env, H, W, channels]\<close>: nested lists
  of bytes. The runner's stack \<open>self.obs\<close> has \<open>num_channels * nstack\<close> channels, a raw
  frame of the environment \<open>num_channels\<close>.
\<close>

type_synonym pixel = "8 word list"
type_synonym image = "pixel list list"
type_synonym batch = "image list"

definition has_shape4 :: "batch \<Rightarrow> nat \<Rightarrow> nat \<Rightarrow> nat \<Rightarrow> nat \<Rightarrow> bool" where
  "has_shape4 a n h w c =
     (length a = n \<and>
      list_all (\<lambda>img. length img = h \<and>
        list_all (\<lambda>row. length row = w \<and> list_all (\<lambda>px. length px = c) row) img) a)"

text \<open>
  \<open>self.obs *= (1 - dones.astype(np.uint8))[:, None, None, None]\<close>: every byte of
  environment \<open>e\<close> is multiplied by \<open>1 - dones[e]\<close>, in \<open>uint8\<close> arithmetic. The
  flags must be one per environment (numpy's broadcasting of a single flag to all
  environments is not modelled: any other length is the error).
\<close>

definition zero_done_envs :: "batch \<Rightarrow> bool list \<Rightarrow> error + batch" where
  "zero_done_envs stack dones =
     (if length dones \<noteq> length stack then Inl ValueError
      else Inr (map2 (\<lambda>img d. map (map (map (\<lambda>x. x * (1 - (if d then 1 else 0))))) img)
                  stack dones))"

text \<open>
  \<open>np.roll(self.obs, shift=-self.num_channels, axis=3)\<close>: channel \<open>j\<close> of the result
  is channel \<open>(j + num_channels) mod n\<close> of the argument.
\<close>

definition roll_channels :: "nat \<Rightarrow> batch \<Rightarrow> batch" where
  "roll_channels num_channels stack = map (map (map (rotate num_channels))) stack"

text \<open>
  \<open>self.obs[:, :, :, -self.num_channels:] = obs[:, :, :, :]\<close>. The slice \<open>-c:\<close> of
  \<open>n\<close> channels starts at \<open>n - c\<close>, at \<open>0\<close> when \<open>c = 0\<close> or \<open>c > n\<close>. The frame
  must have the shape of the slice (broadcasting of axes of size one is not modelled:
  any other shape is the error).
\<close>

definition slice_start :: "nat \<Rightarrow> nat \<Rightarrow> nat" where
  "slice_start c n = (if c = 0 then 0 else n - c)"

definition write_newest :: "nat \<Rightarrow> batch \<Rightarrow> batch \<Rightarrow> error + batch" where
  "write_newest c stack frame =
     (if list_all2 (list_all2 (list_all2
           (\<lambda>old new. length new = length old - slice_start c (length old)))) stack frame
      then Inr (map2 (map2 (map2 (\<lambda>old new. take (slice_start c (length old)) old @ new)))
                  stack frame)
      else Inl ValueError)"

text \<open>
  \<open>update_obs(self, obs, dones=None)\<close>; the stack \<open>self.obs\<close> is passed in and the
  new one returned.
\<close>

definition update_obs :: "nat \<Rightarrow> batch \<Rightarrow> batch \<Rightarrow> bool list option \<Rightarrow> error + batch" where
  "update_obs num_channels stack obs dones =
     (case (case dones of None \<Rightarrow> Inr stack | Some ds \<Rightarrow> zero_done_envs stack ds) of
        Inl err \<Rightarrow> Inl err
      | Inr zeroed \<Rightarrow> write_newest num_channels (roll_channels num_channels zeroed) obs)"

text \<open>
  The runner's state (\<open>self.obs\<close>, \<open>self.states\<close>, \<open>self.dones\<close>, the environment)
  and its constants. The model's step function and the environment's are parameters of
  \<open>run\<close>: \<open>model_step obs states dones = (actions, mus, states)\<close> and
  \<open>env_step env actions = ((obs, rewards, dones), env)\<close>.
\<close>

record ('env, 'st) runner =
  r_env :: 'env
  r_obs :: batch
  r_states :: 'st
  r_dones :: "bool list"
  r_n_env :: nat
  r_n_steps :: nat
  r_nstack :: nat
  r_num_channels :: nat

text \<open>
  The lists that \<open>run\<close> fills. The first entries of \<open>enc_obs\<close> are the arrays that
  \<open>np.split\<close> returns: views of the array that \<open>self.obs\<close> is bound to, not copies.
  \<open>mb_enc_views\<close> counts the leading entries of \<open>mb_enc_obs\<close> that still share their
  memory with the array bound to \<open>self.obs\<close>.
\<close>

record minibatch =
  mb_enc_obs :: "batch list"
  mb_enc_views :: nat
  mb_obs :: "batch list"
  mb_actions :: "int list list"
  mb_mus :: "real list list list"
  mb_dones :: "bool list list"
  mb_rewards :: "real list list"

record rollout =
  ro_enc_obs :: "image list list"
  ro_obs :: "image list list"
  ro_actions :: "int list list"
  ro_rewards :: "real list list"
  ro_mus :: "real list list list"
  ro_dones :: "bool list list"
  ro_masks :: "bool list list"

text \<open>
  \<open>np.split(self.obs, self.nstack, axis=3)\<close>: \<open>nstack\<close> equal groups of channels.
  The constructor gives \<open>self.obs\<close> \<open>num_channels * nstack\<close> channels and
  \<open>update_obs\<close> keeps its shape, so each group has \<open>num_channels\<close> channels.
\<close>

definition np_split :: "batch \<Rightarrow> nat \<Rightarrow> nat \<Rightarrow> error + batch list" where
  "np_split stack nstack num_channels =
     (if nstack = 0 then Inl ValueError
      else Inr (map (\<lambda>k. map (map (map (\<lambda>px. take num_channels (drop (k * num_channels) px)))) stack)
                  [0..<nstack]))"

text \<open>
  \<open>np.asarray(xs).swapaxes(1, 0)\<close> of a list over time of per-environment arrays: the
  result is indexed by environment first. The array of an empty list has one axis only,
  so that swapping its axes \<open>1\<close> and \<open>0\<close> is an \<open>AxisError\<close>; rows of different
  lengths make no array.
\<close>

definition swapaxes :: "'a list list \<Rightarrow> error + 'a list list" where
  "swapaxes xs =
     (case xs of
        [] \<Rightarrow> Inl AxisError
      | row # rest \<Rightarrow>
          if list_all (\<lambda>r. length r = length row) xs
          then Inr (map (\<lambda>e. map (\<lambda>r. r ! e) xs) [0..<length row])
          else Inl ValueError)"

text \<open>
  The in-place multiplication \<open>self.obs *= ...\<close> of \<open>update_obs\<close> writes into the
  array that \<open>self.obs\<close> is bound to, so it is seen through the views of that array:
  the first \<open>k\<close> entries of \<open>enc_obs\<close> are multiplied like the stack, environment by
  environment. The next statement of \<open>update_obs\<close> binds \<open>self.obs\<close> to the new array
  that \<open>np.roll\<close> returns, and from then on no entry of \<open>enc_obs\<close> is a view of it.
\<close>

definition zero_done_views :: "nat \<Rightarrow> bool list \<Rightarrow> batch list \<Rightarrow> batch list" where
  "zero_done_views k dones encs =
     map (\<lambda>view. map2 (\<lambda>img d. map (map (map (\<lambda>x. x * (1 - (if d then 1 else 0))))) img)
                    view dones)
       (take k encs)
     @ drop k encs"

text \<open>One iteration of \<open>for _ in range(self.n_steps)\<close>.\<close>

definition run_step ::
  "(batch \<Rightarrow> 'st \<Rightarrow> bool list \<Rightarrow> int list \<times> real list list \<times> 'st)
    \<Rightarrow> ('env \<Rightarrow> int list \<Rightarrow> (batch \<times> real list \<times> bool list) \<times> 'env)
    \<Rightarrow> ('env, 'st) runner \<times> minibatch \<Rightarrow> error + ('env, 'st) runner \<times> minibatch" where
  "run_step model_step env_step s =
     (let rn = fst s; mb = snd s;
          (acts, ms, sts) = model_step (r_obs rn) (r_states rn) (r_dones rn);
          mb1 = mb\<lparr>mb_obs := mb_obs mb @ [r_obs rn],
                   mb_actions := mb_actions mb @ [acts],
                   mb_mus := mb_mus mb @ [ms],
                   mb_dones := mb_dones mb @ [r_dones rn]\<rparr>;
          ((ob, rews, dns), env1) = env_step (r_env rn) acts
      in case update_obs (r_num_channels rn) (r_obs rn) ob (Some dns) of
           Inl err \<Rightarrow> Inl err
         | Inr stack \<Rightarrow>
             Inr (rn\<lparr>r_env := env1, r_states := sts, r_dones := dns, r_obs := stack\<rparr>,
                  mb1\<lparr>mb_rewards := mb_rewards mb1 @ [rews],
                      mb_enc_obs := zero_done_views (mb_enc_views mb1) dns (mb_enc_obs mb1) @ [ob],
                      mb_enc_views := 0\<rparr>))"

primrec run_loop ::
  "(batch \<Rightarrow> 'st \<Rightarrow> bool list \<Rightarrow> int list \<times> real list list \<times> 'st)
    \<Rightarrow> ('env \<Rightarrow> int list \<Rightarrow> (batch \<times> real list \<times> bool list) \<times> 'env)
    \<Rightarrow> nat \<Rightarrow> ('env, 'st) runner \<times> minibatch \<Rightarrow> error + ('env, 'st) runner \<times> minibatch" where
  "run_loop model_step env_step 0 s = Inr s"
| "run_loop model_step env_step (Suc k) s =
     (case run_step model_step env_step s of
        Inl err \<Rightarrow> Inl err
      | Inr s1 \<Rightarrow> run_loop model_step env_step k s1)"

definition run ::
  "(batch \<Rightarrow> 'st \<Rightarrow> bool list \<Rightarrow> int list \<times> real list list \<times> 'st)
    \<Rightarrow> ('env \<Rightarrow> int list \<Rightarrow> (batch \<times> real list \<times> bool list) \<times> 'env)
    \<Rightarrow> ('env, 'st) runner \<Rightarrow> error + rollout \<times> ('env, 'st) runner" where
  "run model_step env_step rn =
     (case np_split (r_obs rn) (r_nstack rn) (r_num_channels rn) of
        Inl err \<Rightarrow> Inl err
      | Inr enc0 \<Rightarrow>
     (case run_loop model_step env_step (r_n_steps rn)
             (rn, \<lparr>mb_enc_obs = enc0, mb_enc_views = length enc0, mb_obs = [],
                    mb_actions = [], mb_mus = [], mb_dones = [], mb_rewards = []\<rparr>) of
        Inl err \<Rightarrow> Inl err
      | Inr (rn1, mb) \<Rightarrow>
          (let mb2 = mb\<lparr>mb_obs := mb_obs mb @ [r_obs rn1],
                        mb_dones := mb_dones mb @ [r_dones rn1]\<rparr>
           in case swapaxes (mb_enc_obs mb2) of Inl err \<Rightarrow> Inl err | Inr enc \<Rightarrow>
             (case swapaxes (mb_obs mb2) of Inl err \<Rightarrow> Inl err | Inr obs1 \<Rightarrow>
             (case swapaxes (mb_actions mb2) of Inl err \<Rightarrow> Inl err | Inr acts \<Rightarrow>
             (case swapaxes (mb_rewards mb2) of Inl err \<Rightarrow> Inl err | Inr rews \<Rightarrow>
             (case swapaxes (mb_mus mb2) of Inl err \<Rightarrow> Inl err | Inr ms \<Rightarrow>
             (case swapaxes (mb_dones mb2) of Inl err \<Rightarrow> Inl err | Inr dns \<Rightarrow>
                (let mb_masks = dns;
                     dns1 = map (drop 1) dns
                 in Inr (\<lparr>ro_enc_obs = enc, ro_obs = obs1, ro_actions = acts, ro_rewards = rews,
                          ro_mus = ms, ro_dones = dns1, ro_masks = mb_masks\<rparr>, rn1))))))))))"

text \<open>The two arrays of done flags that \<open>run\<close> returns: \<open>(masks, dones)\<close>.\<close>

definition run_flags ::
  "(batch \<Rightarrow> 'st \<Rightarrow> bool list \<Rightarrow> int list \<times> real list list \<times> 'st)
    \<Rightarrow> ('env \<Rightarrow> int list \<Rightarrow> (batch \<times> real list \<times> bool list) \<times> 'env)
    \<Rightarrow> ('env, 'st) runner \<Rightarrow> error + bool list list \<times> bool list list" where
  "run_flags model_step env_step rn =
     (case run model_step env_step rn of
        Inl err \<Rightarrow> Inl err
      | Inr (ro, rn1) \<Rightarrow> Inr (ro_masks ro, ro_dones ro))"

text \<open>
  Well-formedness of the runner's state and of its collaborators: the stack has the
  shape \<open>[n, h, w, c * nstack]\<close> the constructor gives it, the environment returns a
  frame, a reward and a done flag per environment, the model an action and a probability
  vector per environment.
\<close>

definition runner_ok :: "('env, 'st) runner \<Rightarrow> nat \<Rightarrow> nat \<Rightarrow> nat \<Rightarrow> nat \<Rightarrow> nat \<Rightarrow> bool" where
  "runner_ok rn n h w c nstack =
     (r_n_env rn = n \<and> r_num_channels rn = c \<and> r_nstack rn = nstack \<and> 0 < c \<and> 0 < nstack
      \<and> has_shape4 (r_obs rn) n h w (c * nstack) \<and> length (r_dones rn) = n)"

definition env_ok ::
  "('env \<Rightarrow> int list \<Rightarrow> (batch \<times> real list \<times> bool list) \<times> 'env) \<Rightarrow> nat \<Rightarrow> nat \<Rightarrow> nat \<Rightarrow> nat \<Rightarrow> bool" where
  "env_ok env_step n h w c =
     (\<forall>env acts. has_shape4 (fst (fst (env_step env acts))) n h w c
        \<and> length (fst (snd (fst (env_step env acts)))) = n
        \<and> length (snd (snd (fst (env_step env acts)))) = n)"

definition model_ok ::
  "(batch \<Rightarrow> 'st \<Rightarrow> bool list \<Rightarrow> int list \<times> real list list \<times> 'st) \<Rightarrow> nat \<Rightarrow> bool" where
  "model_ok model_step n =
     (\<forall>ob st dn. length (fst (model_step ob st dn)) = n
        \<and> length (fst (snd (model_step ob st dn))) = n)"

definition rows_ok :: "nat \<Rightarrow> 'a list list \<Rightarrow> bool" where
  "rows_ok n xs = list_all (\<lambda>row. length row = n) xs"

definition minibatch_ok :: "minibatch \<Rightarrow> nat \<Rightarrow> bool" where
  "minibatch_ok mb n =
     (rows_ok n (mb_enc_obs mb) \<and> rows_ok n (mb_obs mb) \<and> rows_ok n (mb_actions mb)
      \<and> rows_ok n (mb_mus mb) \<and> rows_ok n (mb_dones mb) \<and> rows_ok n (mb_rewards mb))"

text \<open>
  The rewards and done flags recorded over time are aligned when the flags are one more
  than the rewards and reward \<open>t\<close> and flag \<open>t + 1\<close> are the reward and the done flag
  of one and the same call of the environment's step function.
\<close>

definition aligned ::
  "('env \<Rightarrow> int list \<Rightarrow> (batch \<times> real list \<times> bool list) \<times> 'env)
    \<Rightarrow> real list list \<Rightarrow> bool list list \<Rightarrow> bool" where
  "aligned env_step rws ds =
     (length ds = Suc (length rws) \<and>
      (\<forall>t<length rws. \<exists>env acts. fst (snd (fst (env_step env acts))) = rws ! t
          \<and> snd (snd (fst (env_step env acts))) = ds ! Suc t))"

text \<open>
  A smallest rollout: one environment with one-pixel, one-channel frames whose every
  step ends the episode, a model that always takes action \<open>0\<close>, two frames stacked and
  a horizon of one step.
\<close>

definition example_model_step :: "batch \<Rightarrow> unit \<Rightarrow> bool list \<Rightarrow> int list \<times> real list list \<times> unit" where
  "example_model_step ob st dn = ([0], [[1]], st)"

definition example_env_step :: "nat \<Rightarrow> int list \<Rightarrow> (batch \<times> real list \<times> bool list) \<times> nat" where
  "example_env_step k acts = (([[[[of_nat k]]]], [1], [True]), k + 1)"

definition example_runner :: "(nat, unit) runner" where
  "example_runner =
     \<lparr>r_env = 7, r_obs = [[[[1, 2]]]], r_states = (), r_dones = [False], r_n_env = 1,
      r_n_steps = 1, r_nstack = 2, r_num_channels = 1\<rparr>"

definition example_rollout :: rollout where
  "example_rollout =
     \<lparr>ro_enc_obs = [[[[[0]]], [[[0]]], [[[7]]]]], ro_obs = [[[[[1, 2]]], [[[0, 7]]]]],
      ro_actions = [[0]], ro_rewards = [[1]], ro_mus = [[[1]]], ro_dones = [[True]],
      ro_masks = [[False, True]]\<rparr>"

section \<open>Training loop (\<open>ACER.learn\<close>)\<close>

text \<open>
  \<open>learn\<close> drives collaborators that are not part of this file's subject: the runner,
  the replay buffer (baselines.acer.buffer, not among the sources), numpy's random
  generator and the training step. They are parameters here, functions on a state
  \<open>'w\<close> that holds everything they mutate (environment, buffer, random state, model
  parameters); \<open>'b\<close> is a batch. Only the training step is taken to be fallible: an
  error aborts \<open>learn\<close>, as the exception would. The callback is \<open>None\<close> and the
  logger and the episode statistics have no part in the control flow.
\<close>

record ('w, 'b) collaborators =
  runner_run :: "'w \<Rightarrow> 'b \<times> 'w"
  buffer_put :: "'b \<Rightarrow> 'w \<Rightarrow> 'w"
  has_atleast :: "nat \<Rightarrow> 'w \<Rightarrow> bool"
  buffer_get :: "'w \<Rightarrow> 'b \<times> 'w"
  poisson :: "real \<Rightarrow> 'w \<Rightarrow> nat \<times> 'w"
  train_step :: "'b \<Rightarrow> nat \<Rightarrow> 'w \<Rightarrow> error + 'w"

record learn_config =
  replay_ratio :: real
  replay_start :: nat
  n_batch :: nat

text \<open>The calls \<open>learn\<close> makes, in the order it makes them.\<close>

datatype 'b event =
    RunnerRun 'b
  | BufferPut 'b
  | OnPolicyStep 'b nat
  | PoissonDraw nat
  | BufferGet 'b
  | OffPolicyStep 'b nat




text \<open>
  \<open>for _ in range(samples_number)\<close>: \<open>buffer.get()\<close>, then \<open>self._train_step\<close> on what
  it returned.
\<close>

primrec replay_loop ::
  "('w, 'b) collaborators \<Rightarrow> nat \<Rightarrow> nat \<Rightarrow> 'w \<Rightarrow> 'b event list \<times> (error + 'w)" where
  "replay_loop c steps 0 w = ([], Inr w)"
| "replay_loop c steps (Suc k) w =
     (let (b, w1) = buffer_get c w
      in case train_step c b steps w1 of
           Inl err \<Rightarrow> ([BufferGet b, OffPolicyStep b steps], Inl err)
         | Inr w2 \<Rightarrow>
             (let (evs, r) = replay_loop c steps k w2
              in (BufferGet b # OffPolicyStep b steps # evs, r)))"

text \<open>
  The body of \<open>for steps in range(0, total_timesteps, self.n_batch)\<close>. The buffer exists
  (\<open>buffer is not None\<close>) exactly when \<open>replay_ratio > 0\<close>.
\<close>

definition learn_iteration ::
  "learn_config \<Rightarrow> ('w, 'b) collaborators \<Rightarrow> nat \<Rightarrow> 'w \<Rightarrow> 'b event list \<times> (error + 'w)" where
  "learn_iteration cfg c steps w =
     (let (b, w1) = runner_run c w;
          w2 = (if 0 < replay_ratio cfg then buffer_put c b w1 else w1);
          evs1 = RunnerRun b # (if 0 < replay_ratio cfg then [BufferPut b] else [])
      in case train_step c b steps w2 of
           Inl err \<Rightarrow> (evs1 @ [OnPolicyStep b steps], Inl err)
         | Inr w3 \<Rightarrow>
             if 0 < replay_ratio cfg \<and> has_atleast c (replay_start cfg) w3
             then (let (samples_number, w4) = poisson c (replay_ratio cfg) w3;
                       (evs2, r) = replay_loop c steps samples_number w4
                   in (evs1 @ [OnPolicyStep b steps, PoissonDraw samples_number] @ evs2, r))
             else (evs1 @ [OnPolicyStep b steps], Inr w3))"

fun learn_loop ::
  "learn_config \<Rightarrow> ('w, 'b) collaborators \<Rightarrow> nat list \<Rightarrow> 'w \<Rightarrow> 'b event list \<times> (error + 'w)" where
  "learn_loop cfg c [] w = ([], Inr w)"
| "learn_loop cfg c (steps # rest) w =
     (let (evs, r) = learn_iteration cfg c steps w
      in case r of
           Inl err \<Rightarrow> (evs, Inl err)
         | Inr w1 \<Rightarrow> (let (evs1, r1) = learn_loop cfg c rest w1 in (evs @ evs1, r1)))"

text \<open>
  \<open>range(0, total_timesteps, n_batch)\<close>: the multiples of \<open>n_batch\<close> below
  \<open>total_timesteps\<close>; a step of zero is a \<open>ValueError\<close>.
\<close>

definition py_range_steps :: "nat \<Rightarrow> nat \<Rightarrow> error + nat list" where
  "py_range_steps total_timesteps step =
     (if step = 0 then Inl ValueError
      else Inr (map (\<lambda>i. i * step) [0..<(total_timesteps + step - 1) div step]))"

definition learn ::
  "learn_config \<Rightarrow> ('w, 'b) collaborators \<Rightarrow> nat \<Rightarrow> 'w \<Rightarrow> 'b event list \<times> (error + 'w)" where
  "learn cfg c total_timesteps w =
     (case py_range_steps total_timesteps (n_batch cfg) of
        Inl err \<Rightarrow> ([], Inl err)
      | Inr steps \<Rightarrow> learn_loop cfg c steps w)"





section \<open>The training operation (\<open>ACER.setup_model\<close>, \<open>ACER._train_step\<close>)\<close>

subsection \<open>What \<open>_train_step\<close> runs and reports\<close>

text \<open>
  The operations and tensors of the graph are named by the Python variables that hold
  them. \<open>self.run_ops\<close> and \<open>self.names_ops\<close> are \<open>None\<close> after \<open>__init__\<close>;
  \<open>setup_model\<close> builds the lists \<open>run_ops\<close> and \<open>names_ops\<close> and assigns the
  attributes inside \<open>if self.trust_region:\<close> only.
\<close>

record acer_reports =
  run_ops :: "string list option"
  names_ops :: "string list option"

datatype grads_source = TrustRegionGrads | LossGrads

definition setup_model_reports :: "bool \<Rightarrow> real option \<Rightarrow> error + grads_source \<times> acer_reports" where
  "setup_model_reports trust_region max_grad_norm =
     (let grads = (if trust_region then TrustRegionGrads else LossGrads);
          norm_grads = (case max_grad_norm of None \<Rightarrow> None | Some m \<Rightarrow> Some ''norm_grads'')
      in case norm_grads of
           None \<Rightarrow> Inl AssertionError
         | Some ng \<Rightarrow>
             (let run_ops1 = [''_train'', ''loss'', ''loss_q'', ''entropy'', ''loss_policy'',
                              ''loss_f'', ''loss_bc'', ''explained_variance'', ng];
                  names_ops1 = [''loss'', ''loss_q'', ''entropy'', ''loss_policy'', ''loss_f'',
                                ''loss_bc'', ''explained_variance'', ''norm_grads'']
              in if trust_region
                 then Inr (grads,
                   \<lparr>run_ops = Some (run_ops1 @ [''norm_grads_q'', ''norm_grads_policy'',
                        ''avg_norm_grads_f'', ''avg_norm_k'', ''avg_norm_g'', ''avg_norm_k_dot_g'',
                        ''avg_norm_adj'']),
                    names_ops = Some (names_ops1 @ [''norm_grads_q'', ''norm_grads_policy'',
                        ''avg_norm_grads_f'', ''avg_norm_k'', ''avg_norm_g'', ''avg_norm_k_dot_g'',
                        ''avg_norm_adj''])\<rparr>)
                 else Inr (grads, \<lparr>run_ops = None, names_ops = None\<rparr>)))"

text \<open>
  \<open>self.sess.run(fetches, td_map)\<close> evaluates every fetch (\<open>ev\<close> gives its value for
  the batch at hand); a fetch that is \<open>None\<close> is a \<open>TypeError\<close>.
\<close>

definition sess_run :: "(string \<Rightarrow> 'v) \<Rightarrow> string list option \<Rightarrow> error + 'v list" where
  "sess_run ev fetches =
     (case fetches of None \<Rightarrow> Inl TypeError | Some fs \<Rightarrow> Inr (map ev fs))"

text \<open>
  \<open>return self.names_ops, self.sess.run(self.run_ops, td_map)[1:]\<close>
\<close>

definition acer_train_step ::
  "(string \<Rightarrow> 'v) \<Rightarrow> acer_reports \<Rightarrow> error + string list option \<times> 'v list" where
  "acer_train_step ev m =
     (case sess_run ev (run_ops m) of
        Inl err \<Rightarrow> Inl err
      | Inr vals \<Rightarrow> Inr (names_ops m, drop 1 vals))"

subsection \<open>The order of the optimizer step and the Polyak update\<close>

text \<open>
  A TensorFlow graph as far as the order of execution goes: operations, each with the
  operations it waits for (its control inputs), and the control dependencies of the
  enclosing \<open>with tf.control_dependencies(...)\<close> blocks. An operation gets the
  dependencies of the blocks it is \<^emph>\<open>created\<close> in; using an operation that exists
  already inside a block adds nothing to it.
\<close>

datatype op_kind = EmaApply | ApplyGradients | GroupNoOp

record graph_op =
  kind :: op_kind
  control_inputs :: "nat list"

record graph =
  ops :: "graph_op list"
  control_deps :: "nat list"

definition create_op :: "op_kind \<Rightarrow> nat list \<Rightarrow> graph \<Rightarrow> nat \<times> graph" where
  "create_op k inputs g =
     (length (ops g),
      g\<lparr>ops := ops g @ [\<lparr>kind = k, control_inputs = inputs @ control_deps g\<rparr>]\<rparr>)"

text \<open>\<open>ema.apply(self.params)\<close>\<close>

definition ema_apply :: "graph \<Rightarrow> nat \<times> graph" where
  "ema_apply g = create_op EmaApply [] g"

text \<open>\<open>trainer.apply_gradients(grads)\<close>\<close>

definition apply_gradients :: "graph \<Rightarrow> nat \<times> graph" where
  "apply_gradients g = create_op ApplyGradients [] g"

text \<open>\<open>tf.group(*inputs)\<close>: a new no-op that waits for its inputs.\<close>

definition tf_group :: "nat list \<Rightarrow> graph \<Rightarrow> nat \<times> graph" where
  "tf_group inputs g = create_op GroupNoOp inputs g"

text \<open>\<open>with tf.control_dependencies(deps): body\<close>\<close>

definition with_control_dependencies ::
  "nat list \<Rightarrow> (graph \<Rightarrow> 'a \<times> graph) \<Rightarrow> graph \<Rightarrow> 'a \<times> graph" where
  "with_control_dependencies deps body g =
     (let (r, g1) = body (g\<lparr>control_deps := control_deps g @ deps\<rparr>)
      in (r, g1\<lparr>control_deps := control_deps g\<rparr>))"

text \<open>
  The three statements of \<open>setup_model\<close> in their order:
  \<open>ema_apply_op = ema.apply(self.params)\<close> (line 166),
  \<open>_opt_op = trainer.apply_gradients(grads)\<close> (line 271) and
  \<open>with tf.control_dependencies([_opt_op]): _train = tf.group(ema_apply_op)\<close>
  (lines 274-275). The result is \<open>(ema_apply_op, _opt_op, _train)\<close> and the graph.
\<close>

definition setup_train_ops :: "graph \<Rightarrow> (nat \<times> nat \<times> nat) \<times> graph" where
  "setup_train_ops g0 =
     (let (ema_apply_op, g1) = ema_apply g0;
          (opt_op, g2) = apply_gradients g1;
          (train, g3) = with_control_dependencies [opt_op] (tf_group [ema_apply_op]) g2
      in ((ema_apply_op, opt_op, train), g3))"

definition empty_graph :: graph where
  "empty_graph = \<lparr>ops = [], control_deps = []\<rparr>"

text \<open>
  The parameters: the live ones and their Polyak shadows. The optimizer replaces the
  live parameters by \<open>optimizer live\<close>; the moving average does
  \<open>shadow -= (1 - decay) * (shadow - live)\<close> with whatever the live parameters are
  when it runs.
\<close>

record parameters =
  live :: "real list"
  shadow :: "real list"

definition exec_op :: "real \<Rightarrow> (real list \<Rightarrow> real list) \<Rightarrow> op_kind \<Rightarrow> parameters \<Rightarrow> parameters" where
  "exec_op alpha optimizer k s =
     (case k of
        ApplyGradients \<Rightarrow> s\<lparr>live := optimizer (live s)\<rparr>
      | EmaApply \<Rightarrow> s\<lparr>shadow := map2 (\<lambda>sh p. sh - (1 - alpha) * (sh - p)) (shadow s) (live s)\<rparr>
      | GroupNoOp \<Rightarrow> s)"

text \<open>
  An order of execution is admissible when no operation runs twice and each runs after
  all its control inputs; \<open>sess.run\<close> of a fetch may follow any admissible order that
  contains the fetch.
\<close>

fun admissible :: "graph \<Rightarrow> nat list \<Rightarrow> nat list \<Rightarrow> bool" where
  "admissible g seen [] = True"
| "admissible g seen (i # rest) =
     (i < length (ops g) \<and> i \<notin> set seen
      \<and> list_all (\<lambda>d. d \<in> set seen) (control_inputs (ops g ! i))
      \<and> admissible g (i # seen) rest)"

definition run_schedule ::
  "real \<Rightarrow> (real list \<Rightarrow> real list) \<Rightarrow> graph \<Rightarrow> nat list \<Rightarrow> parameters \<Rightarrow> parameters" where
  "run_schedule alpha optimizer g sched s =
     fold (\<lambda>i. exec_op alpha optimizer (kind (ops g ! i))) sched s"

section \<open>Prediction (\<open>ACER.predict\<close>, \<open>ACER.action_probability\<close>)\<close>

text \<open>
  The values that are passed around: a policy object (an instance of the policy class),
  an observation with its shape, a recurrent state, a mask, \<open>None\<close>, and what a step
  returns.
\<close>

datatype pyval =
    PolicyObject nat
  | Observation "real list" "nat list"
  | RecurrentState "real list"
  | Mask "bool list"
  | Actions "int list"
  | Probabilities "real list list"
  | NoneValue

text \<open>
  \<open>self.policy\<close> is the policy \<^emph>\<open>class\<close> (\<open>setup_model\<close> calls it to build
  \<open>step_model\<close> and \<open>train_model\<close>). The policy classes are not among the sources, so
  the class is a parameter: \<open>class_step\<close> is what the attribute lookup
  \<open>self.policy.step\<close> finds on the class, if anything: a plain function whose first
  positional parameter is \<open>self\<close>. \<open>m_step\<close> is \<open>self.step\<close>, that is
  \<open>step_model.step\<close>, the step function of the model, bound to the policy object
  \<open>step_model\<close>.
\<close>

record policy_class =
  class_step :: "(pyval list \<Rightarrow> error + pyval \<times> pyval \<times> pyval) option"

record acer_model =
  m_policy :: policy_class
  m_step :: "pyval list \<Rightarrow> error + pyval \<times> pyval \<times> pyval"
  m_initial_state :: pyval
  m_n_envs :: nat
  m_observation_space_shape :: "nat list"

text \<open>\<open>np.array(observation).reshape(self.observation_space.shape)\<close>\<close>

definition reshape :: "real list \<Rightarrow> nat list \<Rightarrow> error + pyval" where
  "reshape observation shape =
     (if length observation = prod_list shape then Inr (Observation observation shape)
      else Inl ValueError)"

definition default_state :: "acer_model \<Rightarrow> pyval option \<Rightarrow> pyval" where
  "default_state m state = (case state of None \<Rightarrow> m_initial_state m | Some s \<Rightarrow> s)"

definition default_mask :: "acer_model \<Rightarrow> pyval option \<Rightarrow> pyval" where
  "default_mask m msk = (case msk of None \<Rightarrow> Mask (replicate (m_n_envs m) False) | Some k \<Rightarrow> k)"

text \<open>
  \<open>actions, _, states = self.policy.step(observation, state, mask)\<close>: the three
  arguments go to the function found on the class, the observation in the place of
  \<open>self\<close>.
\<close>

definition predict :: "acer_model \<Rightarrow> real list \<Rightarrow> pyval option \<Rightarrow> pyval option \<Rightarrow> error + pyval \<times> pyval" where
  "predict m observation state msk =
     (let state1 = default_state m state;
          mask1 = default_mask m msk
      in case reshape observation (m_observation_space_shape m) of
           Inl err \<Rightarrow> Inl err
         | Inr observation1 \<Rightarrow>
             (case class_step (m_policy m) of
                None \<Rightarrow> Inl AttributeError
              | Some f \<Rightarrow>
                  (case f [observation1, state1, mask1] of
                     Inl err \<Rightarrow> Inl err
                   | Inr (actions, proba, states) \<Rightarrow> Inr (actions, states))))"

definition action_probability :: "acer_model \<Rightarrow> real list \<Rightarrow> pyval option \<Rightarrow> pyval option \<Rightarrow> error + pyval" where
  "action_probability m observation state msk =
     (let state1 = default_state m state;
          mask1 = default_mask m msk
      in case reshape observation (m_observation_space_shape m) of
           Inl err \<Rightarrow> Inl err
         | Inr observation1 \<Rightarrow>
             (case class_step (m_policy m) of
                None \<Rightarrow> Inl AttributeError
              | Some f \<Rightarrow>
                  (case f [observation1, state1, mask1] of
                     Inl err \<Rightarrow> Inl err
                   | Inr (actions, proba, states) \<Rightarrow> Inr proba)))"

text \<open>
  What the claim describes: the step function of the model, called with the
  observation, the state and the mask.
\<close>

definition predict_by_step :: "acer_model \<Rightarrow> real list \<Rightarrow> pyval option \<Rightarrow> pyval option \<Rightarrow> error + pyval \<times> pyval" where
  "predict_by_step m observation state msk =
     (case reshape observation (m_observation_space_shape m) of
        Inl err \<Rightarrow> Inl err
      | Inr observation1 \<Rightarrow>
          (case m_step m [observation1, default_state m state, default_mask m msk] of
             Inl err \<Rightarrow> Inl err
           | Inr (actions, proba, states) \<Rightarrow> Inr (actions, states)))"

text \<open>
  An example policy class for one environment with a one-number observation: its
  \<open>step\<close> needs a policy object as \<open>self\<close> and an observation as \<open>obs\<close>, and answers
  with action \<open>0\<close>. The example model's \<open>step\<close> is that function bound to policy
  object \<open>0\<close>.
\<close>

definition example_class_step :: "pyval list \<Rightarrow> error + pyval \<times> pyval \<times> pyval" where
  "example_class_step args =
     (case args of
        [PolicyObject i, Observation ob shape, state, msk] \<Rightarrow>
          Inr (Actions [0], Probabilities [[1]], state)
      | _ \<Rightarrow> Inl AttributeError)"

definition example_model :: acer_model where
  "example_model =
     \<lparr>m_policy = \<lparr>class_step = Some example_class_step\<rparr>,
      m_step = (\<lambda>args. example_class_step (PolicyObject 0 # args)),
      m_initial_state = RecurrentState [],
      m_n_envs = 1,
      m_observation_space_shape = [1]\<rparr>"
section \<open>Helper lemmas on tensors\<close>

lemma has_shape2_length: "has_shape2 t n m \<Longrightarrow> length t = n"
  by (simp add: has_shape2_def)

lemma has_shape2_row: "has_shape2 t n m \<Longrightarrow> j < n \<Longrightarrow> length (t ! j) = m"
  by (simp add: has_shape2_def list_all_length)

lemma nonneg2_nth:
  "nonneg2 t \<Longrightarrow> j < length t \<Longrightarrow> a < length (t ! j) \<Longrightarrow> 0 \<le> t ! j ! a"
  by (simp add: nonneg2_def list_all_length)

lemma eps_pos: "0 < eps"
  by (simp add: eps_def)

lemma sum_list_squares_nonneg: "0 \<le> sum_list (map (\<lambda>k::real. k * k) xs)"
  by (induction xs) simp_all

lemma map2_same_length_id:
  "length xs = length ys \<Longrightarrow> map2 (\<lambda>g k. g) xs ys = xs"
  by (induction xs ys rule: list_induct2) simp_all



lemma kl_grad_shape:
  "has_shape2 f_polyak n m \<Longrightarrow> has_shape2 f n m \<Longrightarrow> has_shape2 (kl_grad f_polyak f) n m"
  by (simp add: has_shape2_def kl_grad_def kl_denominator_def list_all_length)

lemma kl_grad_nth:
  "has_shape2 f_polyak n m \<Longrightarrow> has_shape2 f n m \<Longrightarrow> j < n \<Longrightarrow> a < m \<Longrightarrow>
   kl_grad f_polyak f ! j ! a = - (f_polyak ! j ! a) / (f ! j ! a + eps)"
  by (simp add: has_shape2_def kl_grad_def kl_denominator_def list_all_length)

lemma sum_list_map2_nth:
  "length xs = m \<Longrightarrow> length ys = m \<Longrightarrow>
   sum_list (map2 f xs ys) = (\<Sum>a<m. f (xs ! a) (ys ! a))"
proof -
  assume h: "length xs = m" "length ys = m"
  have "sum_list (map2 f xs ys) = (\<Sum>a = 0..<length (map2 f xs ys). map2 f xs ys ! a)"
    by (rule sum_list_sum_nth)
  also have "\<dots> = (\<Sum>a = 0..<m. f (xs ! a) (ys ! a))"
    using h by (intro sum.cong) simp_all
  finally show ?thesis by (simp add: lessThan_atLeast0)
qed

lemma sum_list_map_nth:
  "length xs = m \<Longrightarrow> sum_list (map f xs) = (\<Sum>a<m. f (xs ! a))"
proof -
  assume h: "length xs = m"
  have "sum_list (map f xs) = (\<Sum>a = 0..<length (map f xs). map f xs ! a)"
    by (rule sum_list_sum_nth)
  also have "\<dots> = (\<Sum>a = 0..<m. f (xs ! a))"
    using h by (intro sum.cong) simp_all
  finally show ?thesis by (simp add: lessThan_atLeast0)
qed

lemma k_dot_g_nth:
  "has_shape2 kl n m \<Longrightarrow> has_shape2 grad n m \<Longrightarrow> j < n \<Longrightarrow>
   k_dot_g kl grad ! j = (\<Sum>a<m. kl ! j ! a * grad ! j ! a)"
  by (simp add: k_dot_g_def reduce_sum_rows_def has_shape2_def list_all_length sum_list_map2_nth)

lemma adj_denominator_nth:
  "has_shape2 kl n m \<Longrightarrow> j < n \<Longrightarrow>
   adj_denominator kl ! j = (\<Sum>a<m. kl ! j ! a * kl ! j ! a) + eps"
  by (simp add: adj_denominator_def reduce_sum_rows_def has_shape2_def list_all_length sum_list_map_nth)

lemma adj_denominator_pos:
  "j < length kl \<Longrightarrow> eps \<le> adj_denominator kl ! j"
  by (simp add: adj_denominator_def reduce_sum_rows_def sum_list_squares_nonneg)

lemma adj_length:
  "has_shape2 kl n m \<Longrightarrow> has_shape2 grad n m \<Longrightarrow> length (adj delta kl grad) = n"
  by (simp add: adj_def k_dot_g_def adj_denominator_def reduce_sum_rows_def has_shape2_def)

lemma adj_nth:
  "has_shape2 kl n m \<Longrightarrow> has_shape2 grad n m \<Longrightarrow> j < n \<Longrightarrow>
   adj delta kl grad ! j = max 0 ((k_dot_g kl grad ! j - delta) / adj_denominator kl ! j)"
  by (simp add: adj_def k_dot_g_def adj_denominator_def reduce_sum_rows_def has_shape2_def)

lemma adjusted_grad_row:
  "has_shape2 kl n m \<Longrightarrow> has_shape2 grad n m \<Longrightarrow> j < n \<Longrightarrow>
   adjusted_grad delta kl grad ! j =
     map2 (\<lambda>g k. g - adj delta kl grad ! j * k) (grad ! j) (kl ! j)"
  by (simp add: adjusted_grad_def adj_length has_shape2_length)



lemma rho_denominator_nth:
  "has_shape2 mu n m \<Longrightarrow> j < n \<Longrightarrow> a < m \<Longrightarrow> rho_denominator mu ! j ! a = mu ! j ! a + eps"
  by (simp add: rho_denominator_def has_shape2_def list_all_length)

lemma rho_denominator_shape:
  "has_shape2 mu n m \<Longrightarrow> has_shape2 (rho_denominator mu) n m"
  by (simp add: rho_denominator_def has_shape2_def list_all_length)

lemma rho_shape:
  "has_shape2 f n m \<Longrightarrow> has_shape2 mu n m \<Longrightarrow> has_shape2 (rho f mu) n m"
  by (simp add: rho_def rho_denominator_def has_shape2_def list_all_length)

lemma rho_nth:
  "has_shape2 f n m \<Longrightarrow> has_shape2 mu n m \<Longrightarrow> j < n \<Longrightarrow> a < m \<Longrightarrow>
   rho f mu ! j ! a = f ! j ! a / rho_denominator mu ! j ! a"
  by (simp add: rho_def rho_denominator_def has_shape2_def list_all_length)

lemma bc_denominator_nth:
  "has_shape2 r n m \<Longrightarrow> j < n \<Longrightarrow> a < m \<Longrightarrow> bc_denominator r ! j ! a = r ! j ! a + eps"
  by (simp add: bc_denominator_def has_shape2_def list_all_length)

lemma bc_truncation_nth:
  "has_shape2 r n m \<Longrightarrow> j < n \<Longrightarrow> a < m \<Longrightarrow>
   bc_truncation c r ! j ! a = max 0 (1 - c / bc_denominator r ! j ! a)"
  by (simp add: bc_truncation_def bc_denominator_def has_shape2_def list_all_length)

lemma kl_denominator_nth:
  "has_shape2 f n m \<Longrightarrow> j < n \<Longrightarrow> a < m \<Longrightarrow> kl_denominator f ! j ! a = f ! j ! a + eps"
  by (simp add: kl_denominator_def has_shape2_def list_all_length)

lemma kl_grad_nth_den:
  "has_shape2 f_polyak n m \<Longrightarrow> has_shape2 f n m \<Longrightarrow> j < n \<Longrightarrow> a < m \<Longrightarrow>
   kl_grad f_polyak f ! j ! a = - (f_polyak ! j ! a) / kl_denominator f ! j ! a"
  by (simp add: has_shape2_def kl_grad_def kl_denominator_def list_all_length)



lemma get_by_index_length:
  "length t = n \<Longrightarrow> length idx = n \<Longrightarrow> length (get_by_index t idx) = n"
  by (simp add: get_by_index_def)

lemma get_by_index_nth:
  "length t = n \<Longrightarrow> length idx = n \<Longrightarrow> j < n \<Longrightarrow> get_by_index t idx ! j = t ! j ! (idx ! j)"
  by (simp add: get_by_index_def)

lemma gain_f_weight_length:
  "length qret = n \<Longrightarrow> length val = n \<Longrightarrow> length rho_i = n \<Longrightarrow>
   length (gain_f_weight c qret val rho_i) = n"
  by (simp add: gain_f_weight_def stop_gradient_def adv_def truncated_rho_def)

lemma gain_f_weight_nth:
  "length qret = n \<Longrightarrow> length val = n \<Longrightarrow> length rho_i = n \<Longrightarrow> j < n \<Longrightarrow>
   gain_f_weight c qret val rho_i ! j = (qret ! j - val ! j) * min c (rho_i ! j)"
  by (simp add: gain_f_weight_def stop_gradient_def adv_def truncated_rho_def)

lemma reduce_mean_gain_f:
  assumes "length lf = n" and "length w = n"
  shows "reduce_mean (gain_f lf w) = (\<Sum>j<n. lf ! j * w ! j) / real n"
  using assms by (simp add: reduce_mean_def gain_f_def sum_list_map2_nth)

lemma loss_f_derivative:
  assumes lf: "length lf = n" and w: "length w = n" and j: "j < n"
  shows "((\<lambda>y. - reduce_mean (gain_f (lf[j := y]) w)) has_real_derivative (- (w ! j) / real n)) (at x)"
proof -
  have eq: "(\<lambda>y. - reduce_mean (gain_f (lf[j := y]) w))
      = (\<lambda>y. - (\<Sum>i<n. (if i = j then y else lf ! i) * w ! i) / real n)"
  proof
    fix y
    have "(\<Sum>i<n. lf[j := y] ! i * w ! i) = (\<Sum>i<n. (if i = j then y else lf ! i) * w ! i)"
      using lf by (intro sum.cong) (simp_all add: nth_list_update)
    then show "- reduce_mean (gain_f (lf[j := y]) w)
        = - (\<Sum>i<n. (if i = j then y else lf ! i) * w ! i) / real n"
      using lf w by (simp add: reduce_mean_gain_f)
  qed
  have d: "((\<lambda>y. \<Sum>i<n. (if i = j then y else lf ! i) * w ! i) has_real_derivative
      (\<Sum>i<n. (if i = j then 1 else 0) * w ! i)) (at x)"
    by (rule DERIV_sum) (auto intro!: derivative_eq_intros)
  have s: "(\<Sum>i<n. (if i = j then 1 else 0) * w ! i) = w ! j"
    using j by (simp add: if_distrib [of "\<lambda>c. c * _"] sum.delta cong: if_cong)
  have "((\<lambda>y. - ((\<Sum>i<n. (if i = j then y else lf ! i) * w ! i) / real n)) has_real_derivative
      - (w ! j / real n)) (at x)"
    using d [unfolded s] by (intro DERIV_minus DERIV_cdivide)
  then have "((\<lambda>y. - (\<Sum>i<n. (if i = j then y else lf ! i) * w ! i) / real n) has_real_derivative
      (- (w ! j) / real n)) (at x)"
    by simp
  then show ?thesis
    by (simp only: eq)
qed


section \<open>Helper lemmas on the Retrace recursion\<close>


lemma map2_same_list:
  "map2 f (map g xs) (map h xs) = map (\<lambda>x. f (g x) (h x)) xs"
  by (induction xs) simp_all

lemma batch_to_seq_ok:
  "length t = n_envs * n_steps \<Longrightarrow>
   batch_to_seq t n_envs n_steps
     = Inr (map (\<lambda>i. map (\<lambda>e. env_slice t n_steps e i) [0..<n_envs]) [0..<n_steps])"
  by (simp add: batch_to_seq_def env_slice_def)

lemma concat_rows_length:
  "(\<And>e. e < m \<Longrightarrow> length (f e) = n) \<Longrightarrow> length (concat (map f [0..<m])) = m * n"
  by (induction m) simp_all

lemma concat_rows_nth:
  "(\<And>e. e < m \<Longrightarrow> length (f e) = n) \<Longrightarrow> e < m \<Longrightarrow> i < n \<Longrightarrow>
   concat (map f [0..<m]) ! (e * n + i) = f e ! i"
proof (induction m)
  case 0
  then show ?case by simp
next
  case (Suc m)
  have len: "length (concat (map f [0..<m])) = m * n"
    using Suc.prems(1) by (simp add: concat_rows_length)
  show ?case
  proof (cases "e < m")
    case True
    have "e * n + i < m * n"
    proof -
      have "e * n + i < e * n + n" using Suc.prems(3) by simp
      also have "\<dots> = Suc e * n" by simp
      also have "\<dots> \<le> m * n" using True by (intro mult_le_mono1) simp
      finally show ?thesis .
    qed
    then show ?thesis
      using Suc True len by (simp add: nth_append)
  next
    case False
    then have "e = m" using Suc.prems(2) by simp
    then show ?thesis
      using len by (simp add: nth_append)
  qed
qed

lemma carried_qret_end: "carried_qret gamma n_steps tr n_steps = t_value tr n_steps"
  by (simp add: carried_qret.simps)

lemma carried_qret_step:
  "i < n_steps \<Longrightarrow>
   carried_qret gamma n_steps tr i
     = min 1 (t_rho tr i) * (target_qret gamma n_steps tr i - t_q tr i) + t_value tr i"
  by (subst carried_qret.simps) (simp add: target_qret_def)

lemma q_retrace_loop_correct:
  assumes rb: "rho_bar = map (\<lambda>i. map (\<lambda>e. min 1 (t_rho (T e) i)) [0..<n_envs]) [0..<n_steps]"
    and rs: "reward_seq = map (\<lambda>i. map (\<lambda>e. t_reward (T e) i) [0..<n_envs]) [0..<n_steps]"
    and ds: "done_seq = map (\<lambda>i. map (\<lambda>e. t_done (T e) i) [0..<n_envs]) [0..<n_steps]"
    and qs: "q_is = map (\<lambda>i. map (\<lambda>e. t_q (T e) i) [0..<n_envs]) [0..<n_steps]"
    and vs: "value_sequence = map (\<lambda>i. map (\<lambda>e. t_value (T e) i) [0..<n_envs]) [0..<Suc n_steps]"
  shows "k \<le> n_steps \<Longrightarrow>
    q_retrace_loop gamma n_envs rho_bar reward_seq done_seq q_is value_sequence k
        (map (\<lambda>e. carried_qret gamma n_steps (T e) k) [0..<n_envs]) acc
      = Inr (acc @ map (\<lambda>i. map (\<lambda>e. target_qret gamma n_steps (T e) i) [0..<n_envs])
                     (rev [0..<k]))"
proof (induction k arbitrary: acc)
  case 0
  then show ?case by simp
next
  case (Suc k)
  then have k: "k < n_steps" by simp
  have n1: "rho_bar ! k = map (\<lambda>e. min 1 (t_rho (T e) k)) [0..<n_envs]"
    using k by (simp add: rb)
  have n2: "reward_seq ! k = map (\<lambda>e. t_reward (T e) k) [0..<n_envs]"
    using k by (simp add: rs)
  have n3: "done_seq ! k = map (\<lambda>e. t_done (T e) k) [0..<n_envs]"
    using k by (simp add: ds)
  have n4: "q_is ! k = map (\<lambda>e. t_q (T e) k) [0..<n_envs]"
    using k by (simp add: qs)
  have n5: "value_sequence ! k = map (\<lambda>e. t_value (T e) k) [0..<n_envs]"
    using k by (simp add: vs nth_append del: upt_Suc)
  have rng: "list_all (\<lambda>s. k < length s) [done_seq, reward_seq, rho_bar, q_is, value_sequence]"
    using k by (simp add: rb rs ds qs vs)
  have chk: "check_shape [map (\<lambda>e. carried_qret gamma n_steps (T e) (Suc k)) [0..<n_envs],
      done_seq ! k, reward_seq ! k, rho_bar ! k, q_is ! k, value_sequence ! k] n_envs"
    by (simp add: check_shape_def n1 n2 n3 n4 n5)
  have q1: "map2 (\<lambda>r x. r + x) (reward_seq ! k)
                (map2 (\<lambda>x d. x * d)
                   (map (\<lambda>x. gamma * x) (map (\<lambda>e. carried_qret gamma n_steps (T e) (Suc k)) [0..<n_envs]))
                   (map (\<lambda>d. 1 - d) (done_seq ! k)))
            = map (\<lambda>e. target_qret gamma n_steps (T e) k) [0..<n_envs]"
    by (simp add: n2 n3 map2_same_list target_qret_def o_def)
  have q2: "map2 (\<lambda>x v. x + v)
                (map2 (\<lambda>r x. r * x) (rho_bar ! k)
                   (map2 (\<lambda>x q. x - q) (map (\<lambda>e. target_qret gamma n_steps (T e) k) [0..<n_envs])
                      (q_is ! k)))
                (value_sequence ! k)
            = map (\<lambda>e. carried_qret gamma n_steps (T e) k) [0..<n_envs]"
    using k by (simp add: n1 n4 n5 map2_same_list carried_qret_step)
  have "q_retrace_loop gamma n_envs rho_bar reward_seq done_seq q_is value_sequence (Suc k)
        (map (\<lambda>e. carried_qret gamma n_steps (T e) (Suc k)) [0..<n_envs]) acc
      = q_retrace_loop gamma n_envs rho_bar reward_seq done_seq q_is value_sequence k
        (map (\<lambda>e. carried_qret gamma n_steps (T e) k) [0..<n_envs])
        (acc @ [map (\<lambda>e. target_qret gamma n_steps (T e) k) [0..<n_envs]])"
    by (simp only: q_retrace_loop.simps Let_def q1 q2 rng chk not_True_eq_False if_False)
  also have "\<dots> = Inr ((acc @ [map (\<lambda>e. target_qret gamma n_steps (T e) k) [0..<n_envs]])
        @ map (\<lambda>i. map (\<lambda>e. target_qret gamma n_steps (T e) i) [0..<n_envs]) (rev [0..<k]))"
    using k by (intro Suc.IH) simp
  finally show ?case by simp
qed


lemma seq_to_batch_targets:
  assumes "0 < n_steps"
  shows "seq_to_batch (map (\<lambda>i. map (\<lambda>e. f e i) [0..<n_envs]) [0..<n_steps])
     = Inr (concat (map (\<lambda>e. map (\<lambda>i. f e i) [0..<n_steps]) [0..<n_envs]))"
proof -
  obtain m where m: "n_steps = Suc m"
    using assms by (cases n_steps) simp_all
  have "[0..<n_steps] = 0 # [1..<n_steps]"
    using assms by (simp add: upt_conv_Cons)
  then obtain rest where r: "map (\<lambda>i. map (\<lambda>e. f e i) [0..<n_envs]) [0..<n_steps]
      = map (\<lambda>e. f e 0) [0..<n_envs] # rest"
    by simp
  have all: "list_all (\<lambda>u. length u = length (map (\<lambda>e. f e 0) [0..<n_envs]))
      (map (\<lambda>i. map (\<lambda>e. f e i) [0..<n_envs]) [0..<n_steps])"
    by (simp add: list_all_iff)
  have "seq_to_batch (map (\<lambda>i. map (\<lambda>e. f e i) [0..<n_envs]) [0..<n_steps])
      = Inr (concat (map (\<lambda>e. map (\<lambda>u. u ! e) (map (\<lambda>i. map (\<lambda>e. f e i) [0..<n_envs]) [0..<n_steps]))
               [0..<n_envs]))"
    using all unfolding seq_to_batch_def r [symmetric]
    by (simp add: r split: list.splits)
  also have "concat (map (\<lambda>e. map (\<lambda>u. u ! e) (map (\<lambda>i. map (\<lambda>e. f e i) [0..<n_envs]) [0..<n_steps]))
               [0..<n_envs])
      = concat (map (\<lambda>e. map (\<lambda>i. f e i) [0..<n_steps]) [0..<n_envs])"
    by (rule arg_cong [where f = concat]) (simp add: o_def)
  finally show ?thesis .
qed


lemma flat_index_in_range:
  "e < n_envs \<Longrightarrow> i < n_steps \<Longrightarrow> e * n_steps + i < n_envs * (n_steps::nat)"
proof -
  assume e: "e < n_envs" and i: "i < n_steps"
  have "e * n_steps + i < e * n_steps + n_steps" using i by simp
  also have "\<dots> = Suc e * n_steps" by simp
  also have "\<dots> \<le> n_envs * n_steps" using e by (intro mult_le_mono1) simp
  finally show ?thesis .
qed

lemma env_trajectory_simps:
  "t_reward (env_trajectory rewards dones q_i vals rho_i n_steps e) = env_slice rewards n_steps e"
  "t_done (env_trajectory rewards dones q_i vals rho_i n_steps e) = env_slice dones n_steps e"
  "t_q (env_trajectory rewards dones q_i vals rho_i n_steps e) = env_slice q_i n_steps e"
  "t_value (env_trajectory rewards dones q_i vals rho_i n_steps e) = env_slice vals (n_steps + 1) e"
  "t_rho (env_trajectory rewards dones q_i vals rho_i n_steps e) = env_slice rho_i n_steps e"
  by (simp_all add: env_trajectory_def)

lemma q_retrace_result:
  assumes lr: "length rewards = n_envs * n_steps" and ld: "length dones = n_envs * n_steps"
    and lq: "length q_i = n_envs * n_steps" and lrho: "length rho_i = n_envs * n_steps"
    and lv: "length vals = n_envs * (n_steps + 1)" and ns: "0 < n_steps"
  shows "q_retrace rewards dones q_i vals rho_i n_envs n_steps gamma
    = Inr (concat (map (\<lambda>e. map (\<lambda>i. retrace_target rewards dones q_i vals rho_i n_steps gamma e i)
                               [0..<n_steps]) [0..<n_envs]))"
proof -
  let ?T = "env_trajectory rewards dones q_i vals rho_i n_steps"
  let ?rho_bar = "map (\<lambda>i. map (\<lambda>e. min 1 (t_rho (?T e) i)) [0..<n_envs]) [0..<n_steps]"
  let ?reward_seq = "map (\<lambda>i. map (\<lambda>e. t_reward (?T e) i) [0..<n_envs]) [0..<n_steps]"
  let ?done_seq = "map (\<lambda>i. map (\<lambda>e. t_done (?T e) i) [0..<n_envs]) [0..<n_steps]"
  let ?q_is = "map (\<lambda>i. map (\<lambda>e. t_q (?T e) i) [0..<n_envs]) [0..<n_steps]"
  let ?value_sequence = "map (\<lambda>i. map (\<lambda>e. t_value (?T e) i) [0..<n_envs]) [0..<Suc n_steps]"
  have b1: "batch_to_seq (map (\<lambda>r. min 1 r) rho_i) n_envs n_steps = Inr ?rho_bar"
    using lrho
    by (simp add: batch_to_seq_def env_trajectory_simps env_slice_def flat_index_in_range)
  have b2: "batch_to_seq rewards n_envs n_steps = Inr ?reward_seq"
    using lr by (simp add: batch_to_seq_ok env_trajectory_simps)
  have b3: "batch_to_seq dones n_envs n_steps = Inr ?done_seq"
    using ld by (simp add: batch_to_seq_ok env_trajectory_simps)
  have b4: "batch_to_seq q_i n_envs n_steps = Inr ?q_is"
    using lq by (simp add: batch_to_seq_ok env_trajectory_simps)
  have b5: "batch_to_seq vals n_envs (n_steps + 1) = Inr ?value_sequence"
    using lv by (simp add: batch_to_seq_ok env_trajectory_simps del: upt_Suc)
  have fin: "last ?value_sequence = map (\<lambda>e. carried_qret gamma n_steps (?T e) n_steps) [0..<n_envs]"
    by (simp add: carried_qret_end)
  have loop: "q_retrace_loop gamma n_envs ?rho_bar ?reward_seq ?done_seq ?q_is ?value_sequence
        n_steps (map (\<lambda>e. carried_qret gamma n_steps (?T e) n_steps) [0..<n_envs]) []
      = Inr ([] @ map (\<lambda>i. map (\<lambda>e. target_qret gamma n_steps (?T e) i) [0..<n_envs])
                     (rev [0..<n_steps]))"
    by (rule q_retrace_loop_correct) simp_all
  have "q_retrace rewards dones q_i vals rho_i n_envs n_steps gamma
      = seq_to_batch (rev (map (\<lambda>i. map (\<lambda>e. target_qret gamma n_steps (?T e) i) [0..<n_envs])
                     (rev [0..<n_steps])))"
    by (simp only: q_retrace_def b1 b2 b3 b4 b5 Let_def fin loop sum.case append_Nil)
  also have "\<dots> = seq_to_batch (map (\<lambda>i. map (\<lambda>e. target_qret gamma n_steps (?T e) i) [0..<n_envs])
                     [0..<n_steps])"
    by (simp add: rev_map)
  also have "\<dots> = Inr (concat (map (\<lambda>e. map (\<lambda>i. target_qret gamma n_steps (?T e) i) [0..<n_steps])
                     [0..<n_envs]))"
    using ns by (rule seq_to_batch_targets)
  finally show ?thesis
    by (simp add: retrace_target_def)
qed



text \<open>A hand-computed batch of two environments and two steps.\<close>

lemma q_retrace_example:
  "q_retrace [1, 2, 3, 4] [0, 1, 0, 0] [1/2, 1/2, 1, 1] [3, 4, 5, 6, 7, 8] [2, 1/2, 1, 3] 2 2 (1/2)
     = Inr [27/8, 2, 10, 8]"
  by (simp add: q_retrace_def batch_to_seq_def seq_to_batch_def check_shape_def numeral_2_eq_2 upt_rec)


section \<open>Helper lemmas on the runner\<close>


lemma has_shape4_nth:
  "has_shape4 a n h w c \<longleftrightarrow>
     length a = n \<and> (\<forall>e<n. length (a ! e) = h \<and>
       (\<forall>y<h. length (a ! e ! y) = w \<and> (\<forall>x<w. length (a ! e ! y ! x) = c)))"
  by (auto simp add: has_shape4_def list_all_length)

lemma rotate_keep_newest:
  assumes len: "length p = c * nstack" and c: "0 < c" and ns: "0 < nstack"
  shows "take (slice_start c (length (rotate c p))) (rotate c p) = drop c p"
proof (cases "nstack = 1")
  case True
  then show ?thesis using len c by (simp add: slice_start_def)
next
  case False
  then have "2 \<le> nstack" using ns by simp
  then have "c * 1 < c * nstack" using c by (intro mult_strict_left_mono) simp_all
  then have lt: "c < length p" using len by simp
  then have m: "c mod length p = c" by simp
  have r: "rotate c p = drop c p @ take c p"
    using rotate_drop_take [of c p] m by simp
  show ?thesis
    using c lt by (simp add: r slice_start_def)
qed

lemma update_obs_pixel:
  assumes s: "has_shape4 stack n h w (c * nstack)" and f: "has_shape4 frame n h w c"
    and d: "length dones = n" and c: "0 < c" and ns: "0 < nstack"
  shows "\<exists>stack'. update_obs c stack frame (Some dones) = Inr stack'
    \<and> has_shape4 stack' n h w (c * nstack)
    \<and> (\<forall>e<n. \<forall>y<h. \<forall>x<w. stack' ! e ! y ! x =
          drop c (map (\<lambda>b. b * (1 - (if dones ! e then 1 else 0))) (stack ! e ! y ! x))
            @ frame ! e ! y ! x)"
proof -
  let ?Z = "map2 (\<lambda>img d. map (map (map (\<lambda>x::8 word. x * (1 - (if d then 1 else 0))))) img) stack dones"
  let ?R = "roll_channels c ?Z"
  let ?S = "map2 (map2 (map2 (\<lambda>old new. take (slice_start c (length old)) old @ new))) ?R frame"
  have sn: "length stack = n" "length frame = n"
    and sh: "\<And>e. e < n \<Longrightarrow> length (stack ! e) = h" "\<And>e. e < n \<Longrightarrow> length (frame ! e) = h"
    and sw: "\<And>e y. e < n \<Longrightarrow> y < h \<Longrightarrow> length (stack ! e ! y) = w"
            "\<And>e y. e < n \<Longrightarrow> y < h \<Longrightarrow> length (frame ! e ! y) = w"
    and sc: "\<And>e y x. e < n \<Longrightarrow> y < h \<Longrightarrow> x < w \<Longrightarrow> length (stack ! e ! y ! x) = c * nstack"
            "\<And>e y x. e < n \<Longrightarrow> y < h \<Longrightarrow> x < w \<Longrightarrow> length (frame ! e ! y ! x) = c"
    using s f by (simp_all add: has_shape4_nth)
  have z: "zero_done_envs stack dones = Inr ?Z"
    using d sn by (simp add: zero_done_envs_def)
  have rn: "length ?R = n"
    using d sn by (simp add: roll_channels_def)
  have rh: "length (?R ! e) = h" if "e < n" for e
    using that d sn sh by (simp add: roll_channels_def)
  have rw: "length (?R ! e ! y) = w" if "e < n" "y < h" for e y
    using that d sn sh sw by (simp add: roll_channels_def)
  have rp: "?R ! e ! y ! x = rotate c (map (\<lambda>b. b * (1 - (if dones ! e then 1 else 0))) (stack ! e ! y ! x))"
    if "e < n" "y < h" "x < w" for e y x
    using that d sn sh sw by (simp add: roll_channels_def)
  have cle: "c \<le> c * nstack"
    using ns by simp
  have chk: "list_all2 (list_all2 (list_all2
           (\<lambda>old new. length new = length old - slice_start c (length old)))) ?R frame"
    unfolding list_all2_conv_all_nth
  proof (intro conjI allI impI)
    show "length ?R = length frame" using rn sn by simp
  next
    fix e assume "e < length ?R"
    then have e: "e < n" using rn by simp
    show "length (?R ! e) = length (frame ! e)" using e rh sh by simp
  next
    fix e y assume "e < length ?R" "y < length (?R ! e)"
    then have e: "e < n" and y: "y < h" using rn rh by simp_all
    show "length (?R ! e ! y) = length (frame ! e ! y)" using e y rw sw by simp
  next
    fix e y x assume "e < length ?R" "y < length (?R ! e)" "x < length (?R ! e ! y)"
    then have e: "e < n" and y: "y < h" using rn rh by simp_all
    then have x: "x < w" using \<open>x < length (?R ! e ! y)\<close> rw by simp
    show "length (frame ! e ! y ! x) = length (?R ! e ! y ! x) - slice_start c (length (?R ! e ! y ! x))"
      using e y x c cle by (simp add: rp sc slice_start_def)
  qed
  have w: "write_newest c ?R frame = Inr ?S"
    using chk by (simp add: write_newest_def)
  have res: "update_obs c stack frame (Some dones) = Inr ?S"
    by (simp add: update_obs_def z w)
  have px: "?S ! e ! y ! x =
      drop c (map (\<lambda>b. b * (1 - (if dones ! e then 1 else 0))) (stack ! e ! y ! x)) @ frame ! e ! y ! x"
    if e: "e < n" and y: "y < h" and x: "x < w" for e y x
  proof -
    have "?S ! e ! y ! x = take (slice_start c (length (?R ! e ! y ! x))) (?R ! e ! y ! x) @ frame ! e ! y ! x"
      using e y x rn rh rw sn sh sw by simp
    also have "take (slice_start c (length (?R ! e ! y ! x))) (?R ! e ! y ! x)
        = drop c (map (\<lambda>b. b * (1 - (if dones ! e then 1 else 0))) (stack ! e ! y ! x))"
      unfolding rp [OF e y x] using e y x c ns by (intro rotate_keep_newest) (simp add: sc)
    finally show ?thesis .
  qed
  have shape: "has_shape4 ?S n h w (c * nstack)"
    unfolding has_shape4_nth
  proof (intro conjI allI impI)
    show "length ?S = n" using rn sn by simp
  next
    fix e assume e: "e < n"
    show "length (?S ! e) = h" using e rn rh sn sh by simp
  next
    fix e y assume e: "e < n" and y: "y < h"
    show "length (?S ! e ! y) = w" using e y rn rh rw sn sh sw by simp
  next
    fix e y x assume e: "e < n" and y: "y < h" and x: "x < w"
    have "c * nstack - c + c = c * nstack" using cle by simp
    then show "length (?S ! e ! y ! x) = c * nstack"
      using e y x by (simp add: px sc)
  qed
  show ?thesis
    using res shape px by (intro exI [of _ ?S]) simp
qed




lemma rows_ok_append: "rows_ok n (xs @ [x]) \<longleftrightarrow> rows_ok n xs \<and> length x = n"
  by (auto simp add: rows_ok_def)

lemma zero_done_views_rows:
  assumes "rows_ok n encs" and "length dns = n"
  shows "rows_ok n (zero_done_views k dns encs)"
proof -
  have t: "\<forall>row\<in>set (take k encs). length row = n"
    and d: "\<forall>row\<in>set (drop k encs). length row = n"
    using assms(1)
    by (auto simp add: rows_ok_def list_all_iff dest: in_set_takeD in_set_dropD)
  show ?thesis
    using t d assms(2) by (auto simp add: rows_ok_def zero_done_views_def list_all_iff)
qed

lemma aligned_step:
  assumes a: "aligned es rws (ds @ [d])"
    and o: "es env acts = ((ob, rews, dns), env1)"
  shows "aligned es (rws @ [rews]) ((ds @ [d]) @ [dns])"
proof -
  have len: "length (ds @ [d]) = Suc (length rws)"
    and al: "\<forall>t<length rws. \<exists>env acts. fst (snd (fst (es env acts))) = rws ! t
          \<and> snd (snd (fst (es env acts))) = (ds @ [d]) ! Suc t"
    using a by (simp_all add: aligned_def)
  have "\<exists>env acts. fst (snd (fst (es env acts))) = (rws @ [rews]) ! t
          \<and> snd (snd (fst (es env acts))) = ((ds @ [d]) @ [dns]) ! Suc t"
    if t: "t < length (rws @ [rews])" for t
  proof (cases "t < length rws")
    case True
    then obtain env' acts' where "fst (snd (fst (es env' acts'))) = rws ! t"
      and "snd (snd (fst (es env' acts'))) = (ds @ [d]) ! Suc t"
      using al by blast
    moreover have "Suc t < length (ds @ [d])" using True len by simp
    ultimately show ?thesis
      using True by (metis nth_append)
  next
    case False
    then have te: "t = length rws" using t by simp
    have "Suc t = length (ds @ [d])" using te len by simp
    then have "((ds @ [d]) @ [dns]) ! Suc t = dns"
      by (metis nth_append_length)
    moreover have "(rws @ [rews]) ! t = rews" using te by simp
    ultimately show ?thesis
      using o by (metis fst_conv snd_conv)
  qed
  then show ?thesis
    using len by (simp add: aligned_def)
qed

lemma run_step_ok:
  assumes r: "runner_ok rn n h w c nstack" and m: "minibatch_ok mb n"
    and e: "env_ok es n h w c" and mo: "model_ok ms n"
    and a: "aligned es (mb_rewards mb) (mb_dones mb @ [r_dones rn])"
  shows "\<exists>rn1 mb1. run_step ms es (rn, mb) = Inr (rn1, mb1)
    \<and> runner_ok rn1 n h w c nstack \<and> minibatch_ok mb1 n
    \<and> r_n_steps rn1 = r_n_steps rn
    \<and> mb_dones mb1 = mb_dones mb @ [r_dones rn]
    \<and> length (mb_rewards mb1) = Suc (length (mb_rewards mb))
    \<and> length (mb_actions mb1) = Suc (length (mb_actions mb))
    \<and> length (mb_mus mb1) = Suc (length (mb_mus mb))
    \<and> mb_enc_obs mb1 \<noteq> []
    \<and> aligned es (mb_rewards mb1) (mb_dones mb1 @ [r_dones rn1])"
proof -
  obtain acts mus' sts where ms: "ms (r_obs rn) (r_states rn) (r_dones rn) = (acts, mus', sts)"
    by (cases "ms (r_obs rn) (r_states rn) (r_dones rn)") auto
  obtain ob rews dns env1 where es: "es (r_env rn) acts = ((ob, rews, dns), env1)"
    by (cases "es (r_env rn) acts") auto
  have la: "length acts = n" and lm: "length mus' = n"
    using mo ms by (simp_all add: model_ok_def) (metis fst_conv snd_conv)+
  have so: "has_shape4 ob n h w c" and lr: "length rews = n" and ld: "length dns = n"
    using e es by (simp_all add: env_ok_def) (metis fst_conv snd_conv)+
  have rs: "has_shape4 (r_obs rn) n h w (c * nstack)" and c: "0 < c" and ns: "0 < nstack"
    and nc: "r_num_channels rn = c" and rd: "length (r_dones rn) = n"
    using r by (simp_all add: runner_ok_def)
  have ro: "length (r_obs rn) = n"
    using rs by (simp add: has_shape4_def)
  obtain stack' where u: "update_obs c (r_obs rn) ob (Some dns) = Inr stack'"
    and sh: "has_shape4 stack' n h w (c * nstack)"
    using update_obs_pixel [OF rs so ld c ns] by blast
  let ?rn1 = "rn\<lparr>r_env := env1, r_states := sts, r_dones := dns, r_obs := stack'\<rparr>"
  let ?mb1 = "mb\<lparr>mb_obs := mb_obs mb @ [r_obs rn],
                   mb_actions := mb_actions mb @ [acts],
                   mb_mus := mb_mus mb @ [mus'],
                   mb_dones := mb_dones mb @ [r_dones rn],
                   mb_rewards := mb_rewards mb @ [rews],
                   mb_enc_obs := zero_done_views (mb_enc_views mb) dns (mb_enc_obs mb) @ [ob],
                   mb_enc_views := 0\<rparr>"
  have res: "run_step ms es (rn, mb) = Inr (?rn1, ?mb1)"
    by (simp add: run_step_def ms es nc u)
  have r1: "runner_ok ?rn1 n h w c nstack"
    using r sh ld by (simp add: runner_ok_def)
  have lo: "length ob = n"
    using so by (simp add: has_shape4_def)
  have ev: "rows_ok n (zero_done_views (mb_enc_views mb) dns (mb_enc_obs mb))"
    using m ld by (simp add: minibatch_ok_def zero_done_views_rows)
  have m1: "minibatch_ok ?mb1 n"
    using m la lm lr rd ro lo ev by (simp add: minibatch_ok_def rows_ok_append)
  have a1: "aligned es (mb_rewards ?mb1) (mb_dones ?mb1 @ [r_dones ?rn1])"
    using aligned_step [OF a es] by simp
  show ?thesis
    using res r1 m1 a1 by (intro exI [of _ ?rn1] exI [of _ ?mb1]) simp
qed

lemma run_loop_ok:
  assumes e: "env_ok es n h w c" and mo: "model_ok ms n"
  shows "runner_ok rn n h w c nstack \<Longrightarrow> minibatch_ok mb n \<Longrightarrow>
    aligned es (mb_rewards mb) (mb_dones mb @ [r_dones rn]) \<Longrightarrow>
    \<exists>rn1 mb1. run_loop ms es k (rn, mb) = Inr (rn1, mb1)
      \<and> runner_ok rn1 n h w c nstack \<and> minibatch_ok mb1 n
      \<and> r_n_steps rn1 = r_n_steps rn
      \<and> hd (mb_dones mb1 @ [r_dones rn1]) = hd (mb_dones mb @ [r_dones rn])
      \<and> length (mb_rewards mb1) = length (mb_rewards mb) + k
      \<and> length (mb_actions mb1) = length (mb_actions mb) + k
      \<and> length (mb_mus mb1) = length (mb_mus mb) + k
      \<and> (0 < k \<longrightarrow> mb_enc_obs mb1 \<noteq> [])
      \<and> aligned es (mb_rewards mb1) (mb_dones mb1 @ [r_dones rn1])"
proof (induction k arbitrary: rn mb)
  case 0
  then show ?case by simp
next
  case (Suc k)
  obtain rn1 mb1 where s: "run_step ms es (rn, mb) = Inr (rn1, mb1)"
    and r1: "runner_ok rn1 n h w c nstack" and m1: "minibatch_ok mb1 n"
    and n1: "r_n_steps rn1 = r_n_steps rn"
    and d1: "mb_dones mb1 = mb_dones mb @ [r_dones rn]"
    and l1: "length (mb_rewards mb1) = Suc (length (mb_rewards mb))"
    and la1: "length (mb_actions mb1) = Suc (length (mb_actions mb))"
    and lm1: "length (mb_mus mb1) = Suc (length (mb_mus mb))"
    and e1: "mb_enc_obs mb1 \<noteq> []"
    and a1: "aligned es (mb_rewards mb1) (mb_dones mb1 @ [r_dones rn1])"
    using run_step_ok [OF Suc.prems(1) Suc.prems(2) e mo Suc.prems(3)] by blast
  obtain rn2 mb2 where l: "run_loop ms es k (rn1, mb1) = Inr (rn2, mb2)"
    and r2: "runner_ok rn2 n h w c nstack" and m2: "minibatch_ok mb2 n"
    and n2: "r_n_steps rn2 = r_n_steps rn1"
    and h2: "hd (mb_dones mb2 @ [r_dones rn2]) = hd (mb_dones mb1 @ [r_dones rn1])"
    and l2: "length (mb_rewards mb2) = length (mb_rewards mb1) + k"
    and la2: "length (mb_actions mb2) = length (mb_actions mb1) + k"
    and lm2: "length (mb_mus mb2) = length (mb_mus mb1) + k"
    and e2: "0 < k \<longrightarrow> mb_enc_obs mb2 \<noteq> []"
    and a2: "aligned es (mb_rewards mb2) (mb_dones mb2 @ [r_dones rn2])"
    using Suc.IH [OF r1 m1 a1] by blast
  have e3: "mb_enc_obs mb2 \<noteq> []"
  proof (cases k)
    case 0
    then show ?thesis using l e1 by simp
  next
    case (Suc j)
    then show ?thesis using e2 by simp
  qed
  have h: "hd (mb_dones mb1 @ [r_dones rn1]) = hd (mb_dones mb @ [r_dones rn])"
    by (simp add: d1 hd_append)
  show ?case
    using s l r2 m2 n1 n2 h h2 l1 l2 la1 la2 lm1 lm2 e3 a2
    by (intro exI [of _ rn2] exI [of _ mb2]) simp
qed


lemma swapaxes_ok:
  "xs \<noteq> [] \<Longrightarrow> rows_ok n xs \<Longrightarrow>
   swapaxes xs = Inr (map (\<lambda>e. map (\<lambda>row. row ! e) xs) [0..<n])"
  by (cases xs) (simp_all add: swapaxes_def rows_ok_def)

lemma swapaxes_empty: "swapaxes [] = Inl AxisError"
  by (simp add: swapaxes_def)

lemma np_split_ok:
  assumes "0 < nstack" and "length stack = n"
  shows "\<exists>enc0. np_split stack nstack c = Inr enc0 \<and> rows_ok n enc0 \<and> enc0 \<noteq> []"
  using assms by (simp add: np_split_def rows_ok_def list_all_iff)


text \<open>
  With a horizon of zero steps no action is recorded, and \<open>run\<close> fails where it turns
  the empty list of actions into an array and swaps its axes.
\<close>

lemma run_without_steps:
  assumes r: "runner_ok rn n h w c nstack" and z: "r_n_steps rn = 0"
  shows "run ms es rn = Inl AxisError"
proof -
  have ns: "0 < nstack" and ro: "length (r_obs rn) = n" and nst: "r_nstack rn = nstack"
    using r by (simp_all add: runner_ok_def has_shape4_def)
  obtain enc0 where sp: "np_split (r_obs rn) (r_nstack rn) (r_num_channels rn) = Inr enc0"
    and e0: "rows_ok n enc0" and ne: "enc0 \<noteq> []"
    using np_split_ok [OF ns ro] nst by blast
  have s1: "swapaxes enc0 = Inr (map (\<lambda>e. map (\<lambda>row. row ! e) enc0) [0..<n])"
    using ne e0 by (rule swapaxes_ok)
  have s2: "swapaxes [r_obs rn] = Inr (map (\<lambda>e. map (\<lambda>row. row ! e) [r_obs rn]) [0..<n])"
    using ro by (intro swapaxes_ok) (simp_all add: rows_ok_def)
  show ?thesis
    by (simp add: run_def sp z s1 s2 swapaxes_empty)
qed

text \<open>
  The smallest rollout, evaluated. Its environment is done at the first step, so the two
  frames that \<open>np.split\<close> took from the stack are zero in the \<open>enc_obs\<close> returned.
\<close>


lemma example_run:
  "run example_model_step example_env_step example_runner
     = Inr (example_rollout, example_runner\<lparr>r_env := 8, r_obs := [[[[0, 7]]]], r_dones := [True]\<rparr>)"
  by (simp add: run_def example_runner_def example_rollout_def example_model_step_def
      example_env_step_def np_split_def run_step_def update_obs_def zero_done_envs_def
      roll_channels_def write_newest_def slice_start_def swapaxes_def zero_done_views_def
      numeral_2_eq_2 Let_def)

lemma example_run_flags:
  "run_flags example_model_step example_env_step example_runner = Inr ([[False, True]], [[True]])"
  by (simp add: run_flags_def example_run example_rollout_def)


section \<open>Helper lemmas on the training loop\<close>









section \<open>Helper lemmas on the training operation\<close>

text \<open>With \<open>trust_region\<close> the attributes are set: sixteen fetches, fifteen names.\<close>

lemma train_step_reports_with_trust_region:
  "setup_model_reports True (Some max_norm)
     = Inr (TrustRegionGrads,
         \<lparr>run_ops = Some [''_train'', ''loss'', ''loss_q'', ''entropy'', ''loss_policy'',
              ''loss_f'', ''loss_bc'', ''explained_variance'', ''norm_grads'', ''norm_grads_q'',
              ''norm_grads_policy'', ''avg_norm_grads_f'', ''avg_norm_k'', ''avg_norm_g'',
              ''avg_norm_k_dot_g'', ''avg_norm_adj''],
          names_ops = Some [''loss'', ''loss_q'', ''entropy'', ''loss_policy'', ''loss_f'',
              ''loss_bc'', ''explained_variance'', ''norm_grads'', ''norm_grads_q'',
              ''norm_grads_policy'', ''avg_norm_grads_f'', ''avg_norm_k'', ''avg_norm_g'',
              ''avg_norm_k_dot_g'', ''avg_norm_adj'']\<rparr>)"
  by (simp add: setup_model_reports_def)

text \<open>The graph that the three statements build.\<close>

lemma setup_train_ops_graph:
  "setup_train_ops empty_graph
     = ((0, 1, 2),
        \<lparr>ops = [\<lparr>kind = EmaApply, control_inputs = []\<rparr>,
                \<lparr>kind = ApplyGradients, control_inputs = []\<rparr>,
                \<lparr>kind = GroupNoOp, control_inputs = [0, 1]\<rparr>],
         control_deps = []\<rparr>)"
  by (simp add: setup_train_ops_def empty_graph_def ema_apply_def apply_gradients_def
      tf_group_def with_control_dependencies_def create_op_def)

section \<open>Claims\<close>

subsection \<open>C1: Retrace targets\<close>

text \<open>
  C1. For batches of the right shapes (rewards, dones, selected Q-values and importance
  ratios of length \<open>n_envs * n_steps\<close>, values of length
  \<open>n_envs * (n_steps + 1)\<close>, \<open>n_steps > 0\<close>) \<open>q_retrace\<close> returns, for
  every environment \<open>e\<close> and step \<open>i\<close>, the target of the backward recursion:
  the carried \<open>qret\<close> starts as \<open>value[n_steps]\<close>; at step \<open>i\<close> the target is
  \<open>reward[i] + gamma * qret * (1 - done[i])\<close> and the carried \<open>qret\<close> becomes
  \<open>min(1, rho_i[i]) * (target[i] - q_i[i]) + value[i]\<close>. For \<open>n_steps = 1\<close> and
  \<open>done = 1\<close> the target is the reward, whatever the bootstrap value.
\<close>

theorem q_retrace_backward_recursion:
  fixes gamma :: real
  assumes lr: "length rewards = n_envs * n_steps" and ld: "length dones = n_envs * n_steps"
    and lq: "length q_i = n_envs * n_steps" and lrho: "length rho_i = n_envs * n_steps"
    and lv: "length vals = n_envs * (n_steps + 1)" and ns: "0 < n_steps"
  defines "tgt \<equiv> retrace_target rewards dones q_i vals rho_i n_steps gamma"
  defines "car \<equiv> retrace_carried rewards dones q_i vals rho_i n_steps gamma"
  shows "\<exists>qret. q_retrace rewards dones q_i vals rho_i n_envs n_steps gamma = Inr qret
    \<and> length qret = n_envs * n_steps
    \<and> (\<forall>e<n_envs. \<forall>i<n_steps. qret ! (e * n_steps + i) = tgt e i)
    \<and> (\<forall>e. car e n_steps = vals ! (e * (n_steps + 1) + n_steps))
    \<and> (\<forall>e. \<forall>i<n_steps.
          tgt e i = rewards ! (e * n_steps + i)
                      + gamma * car e (Suc i) * (1 - dones ! (e * n_steps + i))
        \<and> car e i = min 1 (rho_i ! (e * n_steps + i)) * (tgt e i - q_i ! (e * n_steps + i))
                      + vals ! (e * (n_steps + 1) + i))
    \<and> (n_steps = 1 \<longrightarrow> (\<forall>e<n_envs. dones ! e = 1 \<longrightarrow> qret ! e = rewards ! e))"
proof -
  let ?qret = "concat (map (\<lambda>e. map (\<lambda>i. tgt e i) [0..<n_steps]) [0..<n_envs])"
  have res: "q_retrace rewards dones q_i vals rho_i n_envs n_steps gamma = Inr ?qret"
    unfolding tgt_def using lr ld lq lrho lv ns by (rule q_retrace_result)
  have len: "length ?qret = n_envs * n_steps"
    by (rule concat_rows_length) simp
  have nth: "?qret ! (e * n_steps + i) = tgt e i" if "e < n_envs" and "i < n_steps" for e i
  proof -
    have "?qret ! (e * n_steps + i) = map (\<lambda>i. tgt e i) [0..<n_steps] ! i"
      using that by (intro concat_rows_nth) simp_all
    then show ?thesis using that by simp
  qed
  have c_end: "car e n_steps = vals ! (e * (n_steps + 1) + n_steps)" for e
    by (simp add: car_def retrace_carried_def carried_qret_end env_trajectory_simps env_slice_def)
  have t_eq: "tgt e i = rewards ! (e * n_steps + i)
                      + gamma * car e (Suc i) * (1 - dones ! (e * n_steps + i))" for e i
    by (simp add: tgt_def car_def retrace_target_def retrace_carried_def target_qret_def
        env_trajectory_simps env_slice_def)
  have c_eq: "car e i = min 1 (rho_i ! (e * n_steps + i)) * (tgt e i - q_i ! (e * n_steps + i))
                      + vals ! (e * (n_steps + 1) + i)" if "i < n_steps" for e i
    using that
    by (simp add: tgt_def car_def retrace_target_def retrace_carried_def carried_qret_step
        env_trajectory_simps env_slice_def)
  have special: "?qret ! e = rewards ! e"
    if n1: "n_steps = 1" and e: "e < n_envs" and d: "dones ! e = 1" for e
  proof -
    have "?qret ! (e * n_steps + 0) = tgt e 0"
      using e ns by (rule nth)
    also have "\<dots> = rewards ! e"
      using d n1 by (simp add: t_eq)
    finally show ?thesis using n1 by simp
  qed
  show ?thesis
  proof (intro exI [of _ ?qret] conjI)
    show "q_retrace rewards dones q_i vals rho_i n_envs n_steps gamma = Inr ?qret"
      by (rule res)
    show "length ?qret = n_envs * n_steps"
      by (rule len)
    show "\<forall>e<n_envs. \<forall>i<n_steps. ?qret ! (e * n_steps + i) = tgt e i"
      using nth by simp
    show "\<forall>e. car e n_steps = vals ! (e * (n_steps + 1) + n_steps)"
      using c_end by simp
    show "\<forall>e. \<forall>i<n_steps.
          tgt e i = rewards ! (e * n_steps + i)
                      + gamma * car e (Suc i) * (1 - dones ! (e * n_steps + i))
        \<and> car e i = min 1 (rho_i ! (e * n_steps + i)) * (tgt e i - q_i ! (e * n_steps + i))
                      + vals ! (e * (n_steps + 1) + i)"
      using t_eq c_eq by simp
    show "n_steps = 1 \<longrightarrow> (\<forall>e<n_envs. dones ! e = 1 \<longrightarrow> ?qret ! e = rewards ! e)"
      using special by simp
  qed
qed

text \<open>
  Two environments, one step; the first environment's episode ends (\<open>done = 1\<close>), so
  its target is its reward \<open>5\<close>.
\<close>


theorem q_retrace_backward_recursion_witness:
  "length [5, 6::real] = 2 * 1 \<and> length [1, 0::real] = 2 * 1 \<and> length [1, 1::real] = 2 * 1
   \<and> length [2, 2::real] = 2 * 1 \<and> length [7, 8, 9, 10::real] = 2 * (1 + 1) \<and> (0::nat) < 1
   \<and> (\<exists>qret. q_retrace [5, 6] [1, 0] [1, 1] [7, 8, 9, 10] [2, 2] 2 1 (1/2) = Inr qret
         \<and> length qret = 2 \<and> qret ! 0 = 5)"
proof -
  have a: "length [5, 6::real] = 2 * 1" by simp
  have b: "length [1, 0::real] = 2 * 1" by simp
  have c: "length [1, 1::real] = 2 * 1" by simp
  have d: "length [2, 2::real] = 2 * 1" by simp
  have e: "length [7, 8, 9, 10::real] = 2 * (1 + 1)" by simp
  have f: "(0::nat) < 1" by simp
  obtain qret where r: "q_retrace [5, 6] [1, 0] [1, 1] [7, 8, 9, 10] [2, 2] 2 1 (1/2) = Inr qret"
    and l: "length qret = 2 * 1"
    and s: "(1::nat) = 1 \<longrightarrow> (\<forall>e<2. [1, 0::real] ! e = 1 \<longrightarrow> qret ! e = [5, 6] ! e)"
    using q_retrace_backward_recursion [where gamma = "1/2", OF a b c d e f] by blast
  have "qret ! 0 = 5"
    using s by simp
  then show ?thesis
    using a b c d e f r l by simp
qed


subsection \<open>C2: truncated importance sampling in the policy loss\<close>

text \<open>
  C2. In the policy loss the coefficient that multiplies the advantage
  \<open>qret - value\<close> inside the stop-gradient is \<open>min(correction_term, rho_i)\<close>,
  where \<open>rho_i\<close> is the importance ratio of the action taken; it never exceeds
  \<open>correction_term\<close>, however large \<open>rho_i\<close> is. The loss is
  \<open>-mean(log(f_i + eps) * stopgrad(advantage * min(correction_term, rho_i)))\<close>, and
  its derivative with respect to the \<open>j\<close>-th log-probability, the stop-gradient
  factor being held constant, is \<open>-(advantage_j * min(correction_term, rho_i_j)) / n\<close>.
\<close>

theorem truncated_importance_sampling_loss:
  fixes correction_term :: real
  assumes f: "has_shape2 distribution_f n m" and mu: "has_shape2 mu n m"
    and a: "length action = n" and am: "list_all (\<lambda>a. a < m) action"
    and q: "length qret = n" and v: "length val = n"
  defines "f_i \<equiv> get_by_index distribution_f action"
  defines "rho_i \<equiv> get_by_index (rho distribution_f mu) action"
  defines "w \<equiv> gain_f_weight correction_term qret val rho_i"
  shows "(\<forall>j<n. f_i ! j = distribution_f ! j ! (action ! j)
              \<and> rho_i ! j = distribution_f ! j ! (action ! j) / (mu ! j ! (action ! j) + eps)
              \<and> w ! j = (qret ! j - val ! j) * min correction_term (rho_i ! j)
              \<and> min correction_term (rho_i ! j) \<le> correction_term
              \<and> (\<forall>x. ((\<lambda>y. - reduce_mean (gain_f ((log_f f_i)[j := y]) w))
                     has_real_derivative - ((qret ! j - val ! j) * min correction_term (rho_i ! j)) / real n) (at x)))
    \<and> loss_f correction_term distribution_f mu action qret val
        = - ((\<Sum>j<n. ln (f_i ! j + eps)
                * stop_gradient ((qret ! j - val ! j) * min correction_term (rho_i ! j))) / real n)"
proof -
  have lr: "length (rho distribution_f mu) = n"
    by (rule has_shape2_length [OF rho_shape [OF f mu]])
  have lri: "length rho_i = n"
    unfolding rho_i_def using lr a by (rule get_by_index_length)
  have lfi: "length f_i = n"
    unfolding f_i_def using f a by (simp add: get_by_index_length has_shape2_length)
  have lw: "length w = n"
    unfolding w_def using q v lri by (rule gain_f_weight_length)
  have llf: "length (log_f f_i) = n"
    by (simp add: log_f_def lfi)
  have row: "f_i ! j = distribution_f ! j ! (action ! j)
              \<and> rho_i ! j = distribution_f ! j ! (action ! j) / (mu ! j ! (action ! j) + eps)
              \<and> w ! j = (qret ! j - val ! j) * min correction_term (rho_i ! j)
              \<and> min correction_term (rho_i ! j) \<le> correction_term
              \<and> (\<forall>x. ((\<lambda>y. - reduce_mean (gain_f ((log_f f_i)[j := y]) w))
                     has_real_derivative - ((qret ! j - val ! j) * min correction_term (rho_i ! j)) / real n) (at x))"
    if j: "j < n" for j
  proof -
    have aj: "action ! j < m"
      using am a j by (simp add: list_all_length)
    have r1: "f_i ! j = distribution_f ! j ! (action ! j)"
      unfolding f_i_def using f a j by (simp add: get_by_index_nth has_shape2_length)
    have "rho_i ! j = rho distribution_f mu ! j ! (action ! j)"
      unfolding rho_i_def using lr a j by (rule get_by_index_nth)
    then have r2: "rho_i ! j = distribution_f ! j ! (action ! j) / (mu ! j ! (action ! j) + eps)"
      using f mu j aj by (simp add: rho_nth rho_denominator_nth)
    have r3: "w ! j = (qret ! j - val ! j) * min correction_term (rho_i ! j)"
      unfolding w_def using q v lri j by (rule gain_f_weight_nth)
    have r5: "\<forall>x. ((\<lambda>y. - reduce_mean (gain_f ((log_f f_i)[j := y]) w))
                     has_real_derivative - ((qret ! j - val ! j) * min correction_term (rho_i ! j)) / real n) (at x)"
      using loss_f_derivative [OF llf lw j] by (simp add: r3)
    show ?thesis
      using r1 r2 r3 r5 by simp
  qed
  have "loss_f correction_term distribution_f mu action qret val
      = - reduce_mean (gain_f (log_f f_i) w)"
    by (simp add: loss_f_def f_i_def rho_i_def w_def)
  also have "\<dots> = - ((\<Sum>j<n. log_f f_i ! j * w ! j) / real n)"
    using llf lw by (simp add: reduce_mean_gain_f)
  also have "(\<Sum>j<n. log_f f_i ! j * w ! j)
      = (\<Sum>j<n. ln (f_i ! j + eps)
                * stop_gradient ((qret ! j - val ! j) * min correction_term (rho_i ! j)))"
    using lfi row by (intro sum.cong) (simp_all add: log_f_def stop_gradient_def)
  finally have loss: "loss_f correction_term distribution_f mu action qret val
        = - ((\<Sum>j<n. ln (f_i ! j + eps)
                * stop_gradient ((qret ! j - val ! j) * min correction_term (rho_i ! j))) / real n)" .
  show ?thesis
    using row loss by blast
qed

text \<open>
  One row, two actions, behaviour probability \<open>0\<close> for the action taken: the raw
  ratio is \<open>500000\<close>, the weight on the advantage \<open>2 - 1\<close> is
  \<open>correction_term = 10\<close>.
\<close>

theorem truncated_importance_sampling_loss_witness:
  "has_shape2 [[1/2, 1/2::real]] 1 2 \<and> has_shape2 [[0, 1::real]] 1 2
   \<and> length [0::nat] = 1 \<and> list_all (\<lambda>a. a < 2) [0::nat]
   \<and> length [2::real] = 1 \<and> length [1::real] = 1
   \<and> get_by_index (rho [[1/2, 1/2]] [[0, 1]]) [0] ! 0 = 500000
   \<and> gain_f_weight 10 [2] [1] (get_by_index (rho [[1/2, 1/2]] [[0, 1]]) [0]) ! 0 = 10"
proof -
  have a: "has_shape2 [[1/2, 1/2::real]] 1 2" by (simp add: has_shape2_def)
  have b: "has_shape2 [[0, 1::real]] 1 2" by (simp add: has_shape2_def)
  have c: "length [0::nat] = 1" by simp
  have d: "list_all (\<lambda>a. a < 2) [0::nat]" by simp
  have e: "length [2::real] = 1" by simp
  have f: "length [1::real] = 1" by simp
  note t = truncated_importance_sampling_loss [where correction_term = 10, OF a b c d e f]
  have z: "(0::nat) < 1" by simp
  note r = t [THEN conjunct1, rule_format, OF z]
  have r2: "get_by_index (rho [[1/2, 1/2]] [[0, 1]]) [0] ! 0 = 500000"
    using r by (simp add: eps_def)
  have r3: "gain_f_weight 10 [2] [1] (get_by_index (rho [[1/2, 1/2]] [[0, 1]]) [0]) ! 0
      = ([2] ! 0 - [1] ! 0) * min 10 (get_by_index (rho [[1/2, 1/2]] [[0, 1]]) [0] ! 0)"
    using r by blast
  have r4: "gain_f_weight 10 [2] [1] (get_by_index (rho [[1/2, 1/2]] [[0, 1]]) [0]) ! 0 = 10"
    by (simp add: r3 r2)
  show ?thesis
    using a b c d e f r2 r4 by blast
qed

subsection \<open>C3: trust-region adjustment\<close>

text \<open>
  C3. With \<open>trust_region\<close> enabled, for every row \<open>j\<close> of the batch (one
  (env, step) pair) the adjustment factor is
  \<open>adj = max(0, (sum_a kl_grad * grad - delta) / (sum_a kl_grad^2 + eps))\<close> with
  \<open>kl_grad = - f_polyak / (distribution_f + eps)\<close>; it is never negative, the adjusted
  gradient is \<open>grad - adj * kl_grad\<close>, and a row whose linearized KL term
  \<open>sum_a kl_grad * grad\<close> is at most \<open>delta\<close> keeps its gradient unchanged.
\<close>

theorem trust_region_adjustment:
  assumes fp: "has_shape2 f_polyak n m" and f: "has_shape2 distribution_f n m"
    and g: "has_shape2 grad n m" and j: "j < n"
  defines "kl \<equiv> kl_grad f_polyak distribution_f"
  shows "(\<forall>a<m. kl ! j ! a = - (f_polyak ! j ! a) / (distribution_f ! j ! a + eps))
    \<and> adj delta kl grad ! j =
        max 0 (((\<Sum>a<m. kl ! j ! a * grad ! j ! a) - delta) / ((\<Sum>a<m. (kl ! j ! a)\<^sup>2) + eps))
    \<and> 0 \<le> adj delta kl grad ! j
    \<and> length (adjusted_grad delta kl grad ! j) = m
    \<and> (\<forall>a<m. adjusted_grad delta kl grad ! j ! a = grad ! j ! a - adj delta kl grad ! j * kl ! j ! a)
    \<and> ((\<Sum>a<m. kl ! j ! a * grad ! j ! a) \<le> delta \<longrightarrow>
          adj delta kl grad ! j = 0 \<and> adjusted_grad delta kl grad ! j = grad ! j)"
proof -
  have k: "has_shape2 kl n m"
    unfolding kl_def using fp f by (rule kl_grad_shape)
  have c1: "\<forall>a<m. kl ! j ! a = - (f_polyak ! j ! a) / (distribution_f ! j ! a + eps)"
    unfolding kl_def using fp f j by (simp add: kl_grad_nth)
  have a_eq: "adj delta kl grad ! j =
        max 0 (((\<Sum>a<m. kl ! j ! a * grad ! j ! a) - delta) / ((\<Sum>a<m. (kl ! j ! a)\<^sup>2) + eps))"
    using k g j by (simp add: adj_nth k_dot_g_nth adj_denominator_nth power2_eq_square)
  have a_nonneg: "0 \<le> adj delta kl grad ! j"
    by (simp add: a_eq)
  have lk: "length (kl ! j) = m" and lg: "length (grad ! j) = m"
    using k g j by (simp_all add: has_shape2_row)
  have row: "adjusted_grad delta kl grad ! j =
     map2 (\<lambda>g k. g - adj delta kl grad ! j * k) (grad ! j) (kl ! j)"
    using k g j by (rule adjusted_grad_row)
  have c4: "length (adjusted_grad delta kl grad ! j) = m"
    by (simp add: row lk lg)
  have c5: "\<forall>a<m. adjusted_grad delta kl grad ! j ! a = grad ! j ! a - adj delta kl grad ! j * kl ! j ! a"
    by (simp add: row lk lg)
  have c6: "adj delta kl grad ! j = 0 \<and> adjusted_grad delta kl grad ! j = grad ! j"
    if le: "(\<Sum>a<m. kl ! j ! a * grad ! j ! a) \<le> delta"
  proof -
    have den: "0 < (\<Sum>a<m. (kl ! j ! a)\<^sup>2) + eps"
      using eps_pos by (simp add: add_nonneg_pos sum_nonneg)
    have "((\<Sum>a<m. kl ! j ! a * grad ! j ! a) - delta) / ((\<Sum>a<m. (kl ! j ! a)\<^sup>2) + eps) \<le> 0"
      using le den by (simp add: divide_le_0_iff)
    then have z: "adj delta kl grad ! j = 0"
      by (simp add: a_eq)
    show ?thesis
      using z row lk lg by (simp add: map2_same_length_id)
  qed
  show ?thesis
    using c1 a_eq a_nonneg c4 c5 c6 by blast
qed

text \<open>
  A one-row batch with two actions whose linearized KL term is below \<open>delta = 1\<close>:
  the gradient \<open>[1, 1]\<close> is returned as it is.
\<close>

theorem trust_region_adjustment_witness:
  "has_shape2 [[1/2, 1/2::real]] 1 2 \<and> has_shape2 [[1/4, 3/4::real]] 1 2
   \<and> has_shape2 [[1, 1::real]] 1 2 \<and> (0::nat) < 1
   \<and> (\<Sum>a<2. kl_grad [[1/2, 1/2]] [[1/4, 3/4]] ! 0 ! a * [[1, 1]] ! 0 ! a) \<le> 1
   \<and> 0 \<le> adj 1 (kl_grad [[1/2, 1/2]] [[1/4, 3/4]]) [[1, 1]] ! 0
   \<and> adj 1 (kl_grad [[1/2, 1/2]] [[1/4, 3/4]]) [[1, 1]] ! 0 = 0
   \<and> adjusted_grad 1 (kl_grad [[1/2, 1/2]] [[1/4, 3/4]]) [[1, 1]] ! 0 = [1, 1]"
proof -
  have a: "has_shape2 [[1/2, 1/2::real]] 1 2" by (simp add: has_shape2_def)
  have b: "has_shape2 [[1/4, 3/4::real]] 1 2" by (simp add: has_shape2_def)
  have c: "has_shape2 [[1, 1::real]] 1 2" by (simp add: has_shape2_def)
  have d: "(0::nat) < 1" by simp
  have e: "(\<Sum>a<2. kl_grad [[1/2, 1/2]] [[1/4, 3/4]] ! 0 ! a * [[1, 1]] ! 0 ! a) \<le> 1"
    by (simp add: numeral_2_eq_2 kl_grad_def kl_denominator_def eps_def)
  note t = trust_region_adjustment [where delta = 1, OF a b c d]
  have w0: "0 \<le> adj 1 (kl_grad [[1/2, 1/2]] [[1/4, 3/4]]) [[1, 1]] ! 0
   \<and> adj 1 (kl_grad [[1/2, 1/2]] [[1/4, 3/4]]) [[1, 1]] ! 0 = 0
   \<and> adjusted_grad 1 (kl_grad [[1/2, 1/2]] [[1/4, 3/4]]) [[1, 1]] ! 0 = [[1, 1]] ! 0"
    using t e by blast
  have w: "0 \<le> adj 1 (kl_grad [[1/2, 1/2]] [[1/4, 3/4]]) [[1, 1]] ! 0
   \<and> adj 1 (kl_grad [[1/2, 1/2]] [[1/4, 3/4]]) [[1, 1]] ! 0 = 0
   \<and> adjusted_grad 1 (kl_grad [[1/2, 1/2]] [[1/4, 3/4]]) [[1, 1]] ! 0 = [1, 1]"
    using w0 by simp
  show ?thesis
    using a b c d e w by blast
qed

subsection \<open>C4: the Polyak update and the optimizer step\<close>

text \<open>
  C4 says that the shadow update always runs after the optimizer's update, because the
  moving-average operation is control-dependent on the optimizer operation. In the graph
  that \<open>setup_model\<close> builds it is not: \<open>ema_apply_op\<close> (operation \<open>0\<close>) is created
  before the \<open>with tf.control_dependencies([_opt_op])\<close> block and has no control input;
  only the no-op \<open>_train\<close> (operation \<open>2\<close>) created inside the block waits for both.
  So both orders of \<open>ema_apply_op\<close> and \<open>_opt_op\<close> (operation \<open>1\<close>) are admissible,
  and when the moving average runs first the shadow becomes
  \<open>shadow - (1 - alpha) * (shadow - live)\<close> with the live parameters of \<^emph>\<open>before\<close> the
  step: with \<open>alpha = 1/2\<close>, shadow \<open>0\<close> and a step from \<open>1\<close> to \<open>2\<close> it is
  \<open>1/2\<close>, where the claim's formula gives \<open>1\<close>.
\<close>

theorem ema_apply_before_optimizer_admissible:
  "fst (setup_train_ops empty_graph) = (0, 1, 2)
   \<and> control_inputs (ops (snd (setup_train_ops empty_graph)) ! 0) = []
   \<and> control_inputs (ops (snd (setup_train_ops empty_graph)) ! 2) = [0, 1]
   \<and> admissible (snd (setup_train_ops empty_graph)) [] [0, 1, 2]
   \<and> run_schedule alpha optimizer (snd (setup_train_ops empty_graph)) [0, 1, 2] s
       = \<lparr>live = optimizer (live s),
          shadow = map2 (\<lambda>sh p. sh - (1 - alpha) * (sh - p)) (shadow s) (live s)\<rparr>
   \<and> admissible (snd (setup_train_ops empty_graph)) [] [1, 0, 2]
   \<and> run_schedule alpha optimizer (snd (setup_train_ops empty_graph)) [1, 0, 2] s
       = \<lparr>live = optimizer (live s),
          shadow = map2 (\<lambda>sh p. sh - (1 - alpha) * (sh - p)) (shadow s) (optimizer (live s))\<rparr>
   \<and> run_schedule (1/2) (map (\<lambda>p. p + 1)) (snd (setup_train_ops empty_graph)) [0, 1, 2]
         \<lparr>live = [1], shadow = [0]\<rparr>
       = \<lparr>live = [2], shadow = [1/2]\<rparr>
   \<and> [1/2 * 0 + (1 - 1/2) * (2::real)] = [1]"
  by (simp add: setup_train_ops_graph run_schedule_def exec_op_def)

subsection \<open>C5: the done flags returned by \<open>run\<close>\<close>

text \<open>
  C5, as amended. For a well-formed runner, environment and model and a horizon of at
  least one step, \<open>run\<close> returns;
  its \<open>masks\<close> hold, per environment, all \<open>n_steps + 1\<close> recorded done flags, the
  first of which is the flag the runner held before the call; its \<open>dones\<close> hold
  \<open>n_steps\<close> flags per environment and are the recorded sequence without its first
  entry: \<open>dones[env, t] = masks[env, t + 1]\<close> for every \<open>t < n_steps\<close>. This is the
  alignment with the rewards: \<open>rewards[env, t]\<close> and \<open>dones[env, t]\<close> are the reward
  and the done flag returned by one and the same call of the environment's step function.
\<close>

theorem run_dones_follow_masks:
  assumes r: "runner_ok rn n h w c nstack" and e: "env_ok es n h w c" and mo: "model_ok ms n"
    and st: "0 < r_n_steps rn"
  shows "\<exists>ro rn1. run ms es rn = Inr (ro, rn1)
    \<and> length (ro_masks ro) = n \<and> length (ro_dones ro) = n \<and> length (ro_rewards ro) = n
    \<and> (\<forall>e<n. length (ro_masks ro ! e) = r_n_steps rn + 1
           \<and> length (ro_dones ro ! e) = r_n_steps rn
           \<and> length (ro_rewards ro ! e) = r_n_steps rn
           \<and> ro_masks ro ! e ! 0 = r_dones rn ! e
           \<and> (\<forall>t<r_n_steps rn. ro_dones ro ! e ! t = ro_masks ro ! e ! (t + 1)))
    \<and> (\<forall>t<r_n_steps rn. \<exists>env acts. \<forall>e<n.
           ro_rewards ro ! e ! t = fst (snd (fst (es env acts))) ! e
         \<and> ro_dones ro ! e ! t = snd (snd (fst (es env acts))) ! e)"
proof -
  have ns: "0 < nstack" and ro: "length (r_obs rn) = n" and ne: "r_n_env rn = n"
    and nst: "r_nstack rn = nstack"
    using r by (simp_all add: runner_ok_def has_shape4_def)
  obtain enc0 where sp: "np_split (r_obs rn) (r_nstack rn) (r_num_channels rn) = Inr enc0"
    and e0: "rows_ok n enc0"
    using np_split_ok [OF ns ro] nst by blast
  let ?mb0 = "\<lparr>mb_enc_obs = enc0, mb_enc_views = length enc0, mb_obs = [],
                    mb_actions = [], mb_mus = [], mb_dones = [], mb_rewards = []\<rparr>"
  have m0: "minibatch_ok ?mb0 n"
    using e0 by (simp add: minibatch_ok_def rows_ok_def)
  have a0: "aligned es (mb_rewards ?mb0) (mb_dones ?mb0 @ [r_dones rn])"
    by (simp add: aligned_def)
  obtain rn1 mb where l: "run_loop ms es (r_n_steps rn) (rn, ?mb0) = Inr (rn1, mb)"
    and r1: "runner_ok rn1 n h w c nstack" and m1: "minibatch_ok mb n"
    and h1: "hd (mb_dones mb @ [r_dones rn1]) = hd (mb_dones ?mb0 @ [r_dones rn])"
    and l1: "length (mb_rewards mb) = length (mb_rewards ?mb0) + r_n_steps rn"
    and la1: "length (mb_actions mb) = length (mb_actions ?mb0) + r_n_steps rn"
    and lm1: "length (mb_mus mb) = length (mb_mus ?mb0) + r_n_steps rn"
    and en1: "0 < r_n_steps rn \<longrightarrow> mb_enc_obs mb \<noteq> []"
    and a1: "aligned es (mb_rewards mb) (mb_dones mb @ [r_dones rn1])"
    using run_loop_ok [OF e mo r m0 a0] by blast
  let ?D = "mb_dones mb @ [r_dones rn1]"
  let ?O = "mb_obs mb @ [r_obs rn1]"
  let ?masks = "map (\<lambda>e. map (\<lambda>row. row ! e) ?D) [0..<n]"
  let ?ro = "\<lparr>ro_enc_obs = map (\<lambda>e. map (\<lambda>row. row ! e) (mb_enc_obs mb)) [0..<n],
      ro_obs = map (\<lambda>e. map (\<lambda>row. row ! e) ?O) [0..<n],
      ro_actions = map (\<lambda>e. map (\<lambda>row. row ! e) (mb_actions mb)) [0..<n],
      ro_rewards = map (\<lambda>e. map (\<lambda>row. row ! e) (mb_rewards mb)) [0..<n],
      ro_mus = map (\<lambda>e. map (\<lambda>row. row ! e) (mb_mus mb)) [0..<n],
      ro_dones = map (drop 1) ?masks, ro_masks = ?masks\<rparr>"
  have ne1: "r_n_env rn1 = n" and rd1: "length (r_dones rn1) = n" and ro1: "length (r_obs rn1) = n"
    using r1 by (simp_all add: runner_ok_def has_shape4_def)
  have rows: "rows_ok n (mb_enc_obs mb)" "rows_ok n ?O" "rows_ok n (mb_actions mb)"
    "rows_ok n (mb_rewards mb)" "rows_ok n (mb_mus mb)" "rows_ok n ?D"
    using m1 rd1 ro1 by (simp_all add: minibatch_ok_def rows_ok_append)
  have nonempty: "mb_enc_obs mb \<noteq> []" "?O \<noteq> []" "mb_actions mb \<noteq> []"
    "mb_rewards mb \<noteq> []" "mb_mus mb \<noteq> []" "?D \<noteq> []"
    using st en1 l1 la1 lm1 by auto
  have sw: "swapaxes (mb_enc_obs mb) = Inr (map (\<lambda>e. map (\<lambda>row. row ! e) (mb_enc_obs mb)) [0..<n])"
    "swapaxes ?O = Inr (map (\<lambda>e. map (\<lambda>row. row ! e) ?O) [0..<n])"
    "swapaxes (mb_actions mb) = Inr (map (\<lambda>e. map (\<lambda>row. row ! e) (mb_actions mb)) [0..<n])"
    "swapaxes (mb_rewards mb) = Inr (map (\<lambda>e. map (\<lambda>row. row ! e) (mb_rewards mb)) [0..<n])"
    "swapaxes (mb_mus mb) = Inr (map (\<lambda>e. map (\<lambda>row. row ! e) (mb_mus mb)) [0..<n])"
    "swapaxes ?D = Inr (map (\<lambda>e. map (\<lambda>row. row ! e) ?D) [0..<n])"
    by (rule swapaxes_ok [OF nonempty(1) rows(1)], rule swapaxes_ok [OF nonempty(2) rows(2)],
        rule swapaxes_ok [OF nonempty(3) rows(3)], rule swapaxes_ok [OF nonempty(4) rows(4)],
        rule swapaxes_ok [OF nonempty(5) rows(5)], rule swapaxes_ok [OF nonempty(6) rows(6)])
  have res: "run ms es rn = Inr (?ro, rn1)"
    by (simp add: run_def sp l sw Let_def)
  have lr: "length (mb_rewards mb) = r_n_steps rn"
    using l1 by simp
  have lD: "length ?D = Suc (r_n_steps rn)"
    using a1 lr by (simp add: aligned_def)
  have hd0: "?D ! 0 = r_dones rn"
    using h1 lD by (simp add: hd_conv_nth del: length_append)
  have al: "\<forall>t<r_n_steps rn. \<exists>env acts. fst (snd (fst (es env acts))) = mb_rewards mb ! t
          \<and> snd (snd (fst (es env acts))) = ?D ! Suc t"
    using a1 lr by (simp add: aligned_def)
  have per_env: "length (ro_masks ?ro ! e) = r_n_steps rn + 1
           \<and> length (ro_dones ?ro ! e) = r_n_steps rn
           \<and> length (ro_rewards ?ro ! e) = r_n_steps rn
           \<and> ro_masks ?ro ! e ! 0 = r_dones rn ! e
           \<and> (\<forall>t<r_n_steps rn. ro_dones ?ro ! e ! t = ro_masks ?ro ! e ! (t + 1))"
    if e: "e < n" for e
  proof -
    have m: "ro_masks ?ro ! e = map (\<lambda>row. row ! e) ?D"
      using e by simp
    have d: "ro_dones ?ro ! e = drop 1 (map (\<lambda>row. row ! e) ?D)"
      using e by simp
    have rw: "ro_rewards ?ro ! e = map (\<lambda>row. row ! e) (mb_rewards mb)"
      using e by simp
    have z: "map (\<lambda>row. row ! e) ?D ! 0 = ?D ! 0 ! e"
      using lD by (intro nth_map) simp
    show ?thesis
      unfolding m d rw using lD lr hd0 z by (simp del: length_append map_append)
  qed
  have align: "\<exists>env acts. \<forall>e<n.
           ro_rewards ?ro ! e ! t = fst (snd (fst (es env acts))) ! e
         \<and> ro_dones ?ro ! e ! t = snd (snd (fst (es env acts))) ! e"
    if t: "t < r_n_steps rn" for t
  proof -
    obtain env acts where o1: "fst (snd (fst (es env acts))) = mb_rewards mb ! t"
      and o2: "snd (snd (fst (es env acts))) = ?D ! Suc t"
      using al t by blast
    have "ro_rewards ?ro ! e ! t = fst (snd (fst (es env acts))) ! e
         \<and> ro_dones ?ro ! e ! t = snd (snd (fst (es env acts))) ! e" if e: "e < n" for e
    proof -
      have a: "ro_rewards ?ro ! e ! t = mb_rewards mb ! t ! e"
        using e t lr by simp
      have "ro_dones ?ro ! e ! t = drop 1 (map (\<lambda>row. row ! e) ?D) ! t"
        using e by simp
      also have "\<dots> = map (\<lambda>row. row ! e) ?D ! Suc t"
        using t lD by (simp del: length_append map_append)
      also have "\<dots> = ?D ! Suc t ! e"
        using t lD by (intro nth_map) simp
      finally show ?thesis
        using a o1 o2 by simp
    qed
    then show ?thesis by blast
  qed
  have lens: "length (ro_masks ?ro) = n \<and> length (ro_dones ?ro) = n \<and> length (ro_rewards ?ro) = n"
    by simp
  show ?thesis
    using res lens per_env align by (intro exI [of _ ?ro] exI [of _ rn1]) blast
qed

text \<open>The smallest rollout satisfies the hypotheses.\<close>

theorem run_dones_follow_masks_witness:
  "runner_ok example_runner 1 1 1 1 2 \<and> env_ok example_env_step 1 1 1 1
   \<and> model_ok example_model_step 1 \<and> 0 < r_n_steps example_runner
   \<and> (\<exists>ro rn1. run example_model_step example_env_step example_runner = Inr (ro, rn1)
         \<and> length (ro_masks ro ! 0) = 2 \<and> length (ro_dones ro ! 0) = 1
         \<and> ro_masks ro ! 0 ! 0 = False \<and> ro_dones ro ! 0 ! 0 = ro_masks ro ! 0 ! 1)"
proof -
  have a: "runner_ok example_runner 1 1 1 1 2"
    by (simp add: runner_ok_def example_runner_def has_shape4_def)
  have b: "env_ok example_env_step 1 1 1 1"
    by (simp add: env_ok_def example_env_step_def has_shape4_def)
  have c: "model_ok example_model_step 1"
    by (simp add: model_ok_def example_model_step_def)
  have d: "0 < r_n_steps example_runner"
    by (simp add: example_runner_def)
  obtain ro rn1 where r: "run example_model_step example_env_step example_runner = Inr (ro, rn1)"
    and p: "\<forall>e<1. length (ro_masks ro ! e) = r_n_steps example_runner + 1
           \<and> length (ro_dones ro ! e) = r_n_steps example_runner
           \<and> length (ro_rewards ro ! e) = r_n_steps example_runner
           \<and> ro_masks ro ! e ! 0 = r_dones example_runner ! e
           \<and> (\<forall>t<r_n_steps example_runner. ro_dones ro ! e ! t = ro_masks ro ! e ! (t + 1))"
    using run_dones_follow_masks [OF a b c d] by blast
  have q: "length (ro_masks ro ! 0) = 2 \<and> length (ro_dones ro ! 0) = 1
         \<and> ro_masks ro ! 0 ! 0 = False \<and> ro_dones ro ! 0 ! 0 = ro_masks ro ! 0 ! 1"
    using p [rule_format, of 0] by (simp add: example_runner_def)
  show ?thesis
    using a b c d r q by blast
qed

text \<open>
  C5 as stated fails: in the smallest rollout (one environment, one step) \<open>run\<close>
  returns \<open>masks = [[False, True]]\<close> and \<open>dones = [[True]]\<close>. The only entry of
  \<open>dones\<close> is the flag returned by the step, while the first entry of \<open>masks\<close> is the
  \<open>False\<close> the runner held before; \<open>dones\<close> is not the first \<open>n_steps\<close> entries
  of \<open>masks\<close>.
\<close>

theorem run_dones_first_steps_counterexample:
  "run_flags example_model_step example_env_step example_runner = Inr ([[False, True]], [[True]])
   \<and> (0::nat) < r_n_env example_runner \<and> (0::nat) < r_n_steps example_runner
   \<and> [[True]] ! 0 ! 0 \<noteq> [[False, True]] ! 0 ! 0"
  using example_run_flags by (simp add: example_runner_def)

subsection \<open>C6: the frame stack is reset on episode termination\<close>

text \<open>
  C6. When \<open>update_obs\<close> is called with \<open>dones\<close> (stack of shape
  \<open>[n, h, w, c * nstack]\<close>, raw frame of shape \<open>[n, h, w, c]\<close>), it returns a stack
  of the same shape in which, for every environment whose flag is \<open>True\<close>, every pixel
  holds zeros in all older channel slots and the new raw frame in the newest \<open>c\<close>; for
  an environment whose flag is \<open>False\<close> the pixel is shifted by \<open>c\<close> channels, the
  oldest frame dropped, and the newest \<open>c\<close> channels are the raw frame.
\<close>

theorem update_obs_resets_done_envs:
  assumes s: "has_shape4 stack n h w (c * nstack)" and f: "has_shape4 frame n h w c"
    and d: "length dones = n" and c: "0 < c" and ns: "0 < nstack"
  shows "\<exists>stack'. update_obs c stack frame (Some dones) = Inr stack'
    \<and> has_shape4 stack' n h w (c * nstack)
    \<and> (\<forall>e<n. \<forall>y<h. \<forall>x<w.
          (dones ! e \<longrightarrow>
             stack' ! e ! y ! x = replicate (c * nstack - c) 0 @ frame ! e ! y ! x)
        \<and> (\<not> dones ! e \<longrightarrow>
             stack' ! e ! y ! x = drop c (stack ! e ! y ! x) @ frame ! e ! y ! x))"
proof -
  obtain stack' where r: "update_obs c stack frame (Some dones) = Inr stack'"
    and sh: "has_shape4 stack' n h w (c * nstack)"
    and px: "\<forall>e<n. \<forall>y<h. \<forall>x<w. stack' ! e ! y ! x =
          drop c (map (\<lambda>b. b * (1 - (if dones ! e then 1 else 0))) (stack ! e ! y ! x))
            @ frame ! e ! y ! x"
    using update_obs_pixel [OF s f d c ns] by blast
  have "(dones ! e \<longrightarrow>
             stack' ! e ! y ! x = replicate (c * nstack - c) 0 @ frame ! e ! y ! x)
        \<and> (\<not> dones ! e \<longrightarrow>
             stack' ! e ! y ! x = drop c (stack ! e ! y ! x) @ frame ! e ! y ! x)"
    if e: "e < n" and y: "y < h" and x: "x < w" for e y x
  proof -
    have len: "length (stack ! e ! y ! x) = c * nstack"
      using s e y x by (simp add: has_shape4_nth)
    have p: "stack' ! e ! y ! x =
          drop c (map (\<lambda>b. b * (1 - (if dones ! e then 1 else 0))) (stack ! e ! y ! x))
            @ frame ! e ! y ! x"
      using px e y x by simp
    show ?thesis
    proof (cases "dones ! e")
      case True
      then show ?thesis
        using p len by (simp add: map_replicate_const)
    next
      case False
      then show ?thesis
        using p by simp
    qed
  qed
  then show ?thesis
    using r sh by (intro exI [of _ stack']) simp
qed

text \<open>
  Two environments, one pixel, two channels per frame and two frames stacked; the first
  environment is done.
\<close>

theorem update_obs_resets_done_envs_witness:
  "has_shape4 [[[[1, 2, 3, 4]]], [[[4, 5, 6, 7]]]] 2 1 1 (2 * 2)
   \<and> has_shape4 [[[[9, 9]]], [[[8, 8]]]] 2 1 1 2
   \<and> length [True, False] = 2 \<and> (0::nat) < 2
   \<and> (\<exists>stack'. update_obs 2 [[[[1, 2, 3, 4]]], [[[4, 5, 6, 7]]]] [[[[9, 9]]], [[[8, 8]]]]
                     (Some [True, False]) = Inr stack'
         \<and> stack' ! 0 ! 0 ! 0 = [0, 0, 9, 9] \<and> stack' ! 1 ! 0 ! 0 = [6, 7, 8, 8])"
proof -
  have a: "has_shape4 [[[[1, 2, 3, 4]]], [[[4, 5, 6, 7]]]] 2 1 1 (2 * 2)"
    by (simp add: has_shape4_def)
  have b: "has_shape4 [[[[9, 9]]], [[[8, 8]]]] 2 1 1 2"
    by (simp add: has_shape4_def)
  have c: "length [True, False] = 2" by simp
  have d: "(0::nat) < 2" by simp
  obtain stack' where r: "update_obs 2 [[[[1, 2, 3, 4]]], [[[4, 5, 6, 7]]]] [[[[9, 9]]], [[[8, 8]]]]
                     (Some [True, False]) = Inr stack'"
    and px: "\<forall>e<2. \<forall>y<1. \<forall>x<1.
          ([True, False] ! e \<longrightarrow>
             stack' ! e ! y ! x = replicate (2 * 2 - 2) 0 @ [[[[9, 9]]], [[[8, 8]]]] ! e ! y ! x)
        \<and> (\<not> [True, False] ! e \<longrightarrow>
             stack' ! e ! y ! x
               = drop 2 ([[[[1, 2, 3, 4]]], [[[4, 5, 6, 7]]]] ! e ! y ! x)
                   @ [[[[9, 9]]], [[[8, 8]]]] ! e ! y ! x)"
    using update_obs_resets_done_envs [OF a b c d d] by blast
  have p0: "stack' ! 0 ! 0 ! 0 = [0, 0, 9, 9]"
    using px [rule_format, of 0 0 0] by (simp add: numeral_2_eq_2)
  have p1: "stack' ! 1 ! 0 ! 0 = [6, 7, 8, 8]"
    using px [rule_format, of 1 0 0] by (simp add: numeral_2_eq_2)
  show ?thesis
    using a b c d r p0 p1 by blast
qed


subsection \<open>C7: epsilon in every denominator\<close>

text \<open>
  C7. The four divisions of the loss and gradient assembly add \<open>eps = 1e-6\<close> to
  their denominators: the importance ratio \<open>distribution_f / (mu + eps)\<close>, the
  bias-correction ratio \<open>correction_term / (rho + eps)\<close>, the KL gradient
  \<open>- f_polyak / (distribution_f + eps)\<close> and the adjustment's
  \<open>sum_a kl_grad^2 + eps\<close>. For non-negative \<open>distribution_f\<close> and
  \<open>mu\<close> every one of these denominators is at least \<open>eps\<close>, hence not zero.
\<close>

theorem denominators_positive:
  assumes f: "has_shape2 distribution_f n m" and mu: "has_shape2 mu n m"
    and fp: "has_shape2 f_polyak n m" and g: "has_shape2 grad n m"
    and f0: "nonneg2 distribution_f" and mu0: "nonneg2 mu"
    and j: "j < n" and a: "a < m"
  defines "r \<equiv> rho distribution_f mu"
  defines "kl \<equiv> kl_grad f_polyak distribution_f"
  shows "eps = 1 / 1000000
    \<and> r ! j ! a = distribution_f ! j ! a / rho_denominator mu ! j ! a
    \<and> rho_denominator mu ! j ! a = mu ! j ! a + eps
    \<and> eps \<le> rho_denominator mu ! j ! a
    \<and> bc_truncation correction_term r ! j ! a
        = max 0 (1 - correction_term / bc_denominator r ! j ! a)
    \<and> bc_denominator r ! j ! a = r ! j ! a + eps
    \<and> eps \<le> bc_denominator r ! j ! a
    \<and> kl ! j ! a = - (f_polyak ! j ! a) / kl_denominator distribution_f ! j ! a
    \<and> kl_denominator distribution_f ! j ! a = distribution_f ! j ! a + eps
    \<and> eps \<le> kl_denominator distribution_f ! j ! a
    \<and> adj delta kl grad ! j = max 0 ((k_dot_g kl grad ! j - delta) / adj_denominator kl ! j)
    \<and> adj_denominator kl ! j = (\<Sum>a<m. (kl ! j ! a)\<^sup>2) + eps
    \<and> eps \<le> adj_denominator kl ! j
    \<and> rho_denominator mu ! j ! a \<noteq> 0 \<and> bc_denominator r ! j ! a \<noteq> 0
    \<and> kl_denominator distribution_f ! j ! a \<noteq> 0 \<and> adj_denominator kl ! j \<noteq> 0"
proof -
  have rs: "has_shape2 r n m"
    unfolding r_def using f mu by (rule rho_shape)
  have ks: "has_shape2 kl n m"
    unfolding kl_def using fp f by (rule kl_grad_shape)
  have f_ge: "0 \<le> distribution_f ! j ! a"
    using f f0 j a by (simp add: nonneg2_nth has_shape2_length has_shape2_row)
  have mu_ge: "0 \<le> mu ! j ! a"
    using mu mu0 j a by (simp add: nonneg2_nth has_shape2_length has_shape2_row)
  have d1: "rho_denominator mu ! j ! a = mu ! j ! a + eps"
    using mu j a by (rule rho_denominator_nth)
  have p1: "eps \<le> rho_denominator mu ! j ! a"
    using mu_ge by (simp add: d1)
  have e1: "r ! j ! a = distribution_f ! j ! a / rho_denominator mu ! j ! a"
    unfolding r_def using f mu j a by (rule rho_nth)
  have r_ge: "0 \<le> r ! j ! a"
    using f_ge p1 eps_pos by (simp add: e1)
  have d2: "bc_denominator r ! j ! a = r ! j ! a + eps"
    using rs j a by (rule bc_denominator_nth)
  have p2: "eps \<le> bc_denominator r ! j ! a"
    using r_ge by (simp add: d2)
  have e2: "bc_truncation correction_term r ! j ! a
        = max 0 (1 - correction_term / bc_denominator r ! j ! a)"
    using rs j a by (rule bc_truncation_nth)
  have d3: "kl_denominator distribution_f ! j ! a = distribution_f ! j ! a + eps"
    using f j a by (rule kl_denominator_nth)
  have p3: "eps \<le> kl_denominator distribution_f ! j ! a"
    using f_ge by (simp add: d3)
  have e3: "kl ! j ! a = - (f_polyak ! j ! a) / kl_denominator distribution_f ! j ! a"
    unfolding kl_def using fp f j a by (rule kl_grad_nth_den)
  have e4: "adj delta kl grad ! j = max 0 ((k_dot_g kl grad ! j - delta) / adj_denominator kl ! j)"
    using ks g j by (rule adj_nth)
  have d4: "adj_denominator kl ! j = (\<Sum>a<m. (kl ! j ! a)\<^sup>2) + eps"
    using ks j by (simp add: adj_denominator_nth power2_eq_square)
  have p4: "eps \<le> adj_denominator kl ! j"
    using ks j by (simp add: adj_denominator_pos has_shape2_length)
  have n1: "rho_denominator mu ! j ! a \<noteq> 0" using p1 eps_pos by simp
  have n2: "bc_denominator r ! j ! a \<noteq> 0" using p2 eps_pos by simp
  have n3: "kl_denominator distribution_f ! j ! a \<noteq> 0" using p3 eps_pos by simp
  have n4: "adj_denominator kl ! j \<noteq> 0" using p4 eps_pos by simp
  show ?thesis
    using d1 p1 e1 d2 p2 e2 d3 p3 e3 e4 d4 p4 n1 n2 n3 n4 by (simp add: eps_def)
qed

text \<open>
  A behaviour probability \<open>mu = 0\<close> for the first action: the denominator is
  \<open>eps\<close> itself.
\<close>

theorem denominators_positive_witness:
  "has_shape2 [[1, 0::real]] 1 2 \<and> has_shape2 [[0, 1::real]] 1 2 \<and> has_shape2 [[1/2, 1/2::real]] 1 2
   \<and> has_shape2 [[-3, 1::real]] 1 2 \<and> nonneg2 [[1, 0]] \<and> nonneg2 [[0, 1]] \<and> (0::nat) < 1 \<and> (0::nat) < 2
   \<and> rho_denominator [[0, 1]] ! 0 ! 0 \<noteq> 0
   \<and> bc_denominator (rho [[1, 0]] [[0, 1]]) ! 0 ! 0 \<noteq> 0
   \<and> kl_denominator [[1, 0]] ! 0 ! 0 \<noteq> 0
   \<and> adj_denominator (kl_grad [[1/2, 1/2]] [[1, 0]]) ! 0 \<noteq> 0"
proof -
  have a: "has_shape2 [[1, 0::real]] 1 2" by (simp add: has_shape2_def)
  have b: "has_shape2 [[0, 1::real]] 1 2" by (simp add: has_shape2_def)
  have c: "has_shape2 [[1/2, 1/2::real]] 1 2" by (simp add: has_shape2_def)
  have d: "has_shape2 [[-3, 1::real]] 1 2" by (simp add: has_shape2_def)
  have e: "nonneg2 [[1, 0]]" by (simp add: nonneg2_def)
  have f: "nonneg2 [[0, 1]]" by (simp add: nonneg2_def)
  have g: "(0::nat) < 1" by simp
  have h: "(0::nat) < 2" by simp
  note t = denominators_positive [where correction_term = 10 and delta = 1, OF a b c d e f g h]
  have w: "rho_denominator [[0, 1]] ! 0 ! 0 \<noteq> 0
   \<and> bc_denominator (rho [[1, 0]] [[0, 1]]) ! 0 ! 0 \<noteq> 0
   \<and> kl_denominator [[1, 0]] ! 0 ! 0 \<noteq> 0
   \<and> adj_denominator (kl_grad [[1/2, 1/2]] [[1, 0]]) ! 0 \<noteq> 0"
    using t by blast
  show ?thesis
    using a b c d e f g h w by blast
qed


subsection \<open>C8: one on-policy step, then the replay steps\<close>




subsection \<open>C9: the training step without trust region\<close>

text \<open>
  C9 says that \<open>_train_step\<close> returns the report names and values also when
  \<open>trust_region\<close> is \<open>False\<close>. With \<open>trust_region = False\<close> (and a gradient-norm
  bound, so that the assertion holds) \<open>setup_model\<close> takes the gradients from the loss
  but leaves \<open>self.run_ops\<close> and \<open>self.names_ops\<close> at \<open>None\<close>, and
  \<open>_train_step\<close> then fails with a \<open>TypeError\<close> on every batch.
\<close>

theorem train_step_without_trust_region:
  "setup_model_reports False (Some max_norm)
     = Inr (LossGrads, \<lparr>run_ops = None, names_ops = None\<rparr>)
   \<and> acer_train_step ev \<lparr>run_ops = None, names_ops = None\<rparr> = Inl TypeError"
  by (simp add: setup_model_reports_def acer_train_step_def sess_run_def)

subsection \<open>C10: \<open>predict\<close> and \<open>action_probability\<close>\<close>

text \<open>
  C10 says that \<open>predict\<close> and \<open>action_probability\<close> return what the model's step
  function produces. They never call it: replacing the model's step function by any
  other changes neither result, since the call goes to the attribute \<open>step\<close> of the
  policy class, with the observation in the place of \<open>self\<close>. For the example model
  both fail with an \<open>AttributeError\<close>, where the model's step function returns action
  \<open>0\<close> and the unchanged state.
\<close>

theorem predict_bypasses_model_step:
  "predict (m\<lparr>m_step := f\<rparr>) observation state msk = predict m observation state msk
   \<and> action_probability (m\<lparr>m_step := f\<rparr>) observation state msk
       = action_probability m observation state msk
   \<and> predict example_model [3] None None = Inl AttributeError
   \<and> action_probability example_model [3] None None = Inl AttributeError
   \<and> predict_by_step example_model [3] None None = Inr (Actions [0], RecurrentState [])"
  by (cases state; cases msk)
    (simp_all add: predict_def action_probability_def predict_by_step_def default_state_def
      default_mask_def reshape_def example_model_def example_class_step_def)

end
